theory Spec2Isabelle
  imports Complex_Main
begin

section \<open>JavaScript numbers\<close>

text \<open>
  A JavaScript number is an IEEE 754 double. \<open>Finite q\<close> is the finite double with value
  \<open>q\<close>, where \<open>Finite 0\<close> is +0 and \<open>NegZero\<close> is -0; \<open>is_double\<close> says that
  \<open>q\<close> is a value doubles have. Each operation returns the exact result rounded to the
  nearest double, ties to the double with an even significand, as the host does.
\<close>

datatype number = Finite real | NegZero | PosInf | NegInf | NaN

definition pow2 :: "int \<Rightarrow> real" where
  "pow2 k = (if 0 \<le> k then 2 ^ nat k else 1 / 2 ^ nat (- k))"

text \<open>The number of binary digits of a natural number.\<close>

fun bitlen :: "nat \<Rightarrow> nat" where
  "bitlen n = (if n = 0 then 0 else Suc (bitlen (n div 2)))"

declare bitlen.simps [simp del]

text \<open>The integer part of the binary logarithm of a positive number.\<close>

definition ilog2 :: "real \<Rightarrow> int" where
  "ilog2 a =
     (if 1 \<le> a then int (bitlen (nat \<lfloor>a\<rfloor>)) - 1
      else - int (bitlen (nat (\<lceil>1 / a\<rceil> - 1))))"

text \<open>
  The exponent of the last binary digit a double keeps at magnitude \<open>a\<close>: 53 significant
  digits, and never below \<open>-1074\<close>, where the subnormal doubles end.
\<close>

definition quantum :: "real \<Rightarrow> int" where
  "quantum a = max (ilog2 a - 52) (- 1074)"

definition round_half_even :: "real \<Rightarrow> int" where
  "round_half_even q =
     (let f = \<lfloor>q\<rfloor>; r = q - of_int f
      in if r < 1 / 2 \<or> (r = 1 / 2 \<and> even f) then f else f + 1)"

text \<open>
  Rounding an exact result to a double: to a multiple of the quantum; a magnitude that
  reaches \<open>2 ^ 1024\<close> overflows to an infinity, one that rounds to nothing gives a zero
  with the sign of the exact result.
\<close>

definition round_nearest :: "real \<Rightarrow> number" where
  "round_nearest x =
     (if x = 0 then Finite 0
      else (let a = \<bar>x\<bar>;
                e = quantum a;
                v = of_int (round_half_even (a / pow2 e)) * pow2 e
            in if pow2 1024 \<le> v then (if x < 0 then NegInf else PosInf)
               else if v = 0 then (if x < 0 then NegZero else Finite 0)
               else Finite (if x < 0 then - v else v)))"

definition is_double :: "number \<Rightarrow> bool" where
  "is_double x =
     (case x of
        Finite q \<Rightarrow>
          q = 0 \<or> (let a = \<bar>q\<bar>; e = quantum a
                   in a < pow2 1024 \<and> a / pow2 e = of_int \<lfloor>a / pow2 e\<rfloor>)
      | _ \<Rightarrow> True)"

fun is_finite :: "number \<Rightarrow> bool" where
  "is_finite (Finite q) = True"
| "is_finite NegZero = True"
| "is_finite x = False"

fun negative :: "number \<Rightarrow> bool" where
  "negative (Finite q) = (q < 0)"
| "negative NegZero = True"
| "negative NegInf = True"
| "negative PosInf = False"
| "negative NaN = False"

fun value_of :: "number \<Rightarrow> real" where
  "value_of (Finite q) = q"
| "value_of x = 0"

definition is_zero :: "number \<Rightarrow> bool" where
  "is_zero x = (x = Finite 0 \<or> x = NegZero)"

definition is_inf :: "number \<Rightarrow> bool" where
  "is_inf x = (x = PosInf \<or> x = NegInf)"

definition signed_zero :: "bool \<Rightarrow> number" where
  "signed_zero s = (if s then NegZero else Finite 0)"

definition infinity :: "bool \<Rightarrow> number" where
  "infinity s = (if s then NegInf else PosInf)"

text \<open>\<open>x + y\<close>.\<close>

definition fadd :: "number \<Rightarrow> number \<Rightarrow> number" where
  "fadd x y =
     (if x = NaN \<or> y = NaN then NaN
      else if is_inf x then (if is_inf y \<and> x \<noteq> y then NaN else x)
      else if is_inf y then y
      else if is_zero x \<and> is_zero y
        then (if x = NegZero \<and> y = NegZero then NegZero else Finite 0)
      else round_nearest (value_of x + value_of y))"

fun fneg :: "number \<Rightarrow> number" where
  "fneg (Finite q) = (if q = 0 then NegZero else Finite (- q))"
| "fneg NegZero = Finite 0"
| "fneg PosInf = NegInf"
| "fneg NegInf = PosInf"
| "fneg NaN = NaN"

text \<open>\<open>x - y\<close>.\<close>

definition fsub :: "number \<Rightarrow> number \<Rightarrow> number" where
  "fsub x y = fadd x (fneg y)"

text \<open>\<open>x * y\<close>.\<close>

definition fmul :: "number \<Rightarrow> number \<Rightarrow> number" where
  "fmul x y =
     (if x = NaN \<or> y = NaN then NaN
      else if is_inf x \<or> is_inf y
        then (if is_zero x \<or> is_zero y then NaN else infinity (negative x \<noteq> negative y))
      else if is_zero x \<or> is_zero y then signed_zero (negative x \<noteq> negative y)
      else round_nearest (value_of x * value_of y))"

text \<open>\<open>x / y\<close>.\<close>

definition fdiv :: "number \<Rightarrow> number \<Rightarrow> number" where
  "fdiv x y =
     (if x = NaN \<or> y = NaN then NaN
      else if is_inf x then (if is_inf y then NaN else infinity (negative x \<noteq> negative y))
      else if is_inf y then signed_zero (negative x \<noteq> negative y)
      else if is_zero y then (if is_zero x then NaN else infinity (negative x \<noteq> negative y))
      else if is_zero x then signed_zero (negative x \<noteq> negative y)
      else round_nearest (value_of x / value_of y))"

text \<open>\<open>x > y\<close>: false when either side is NaN; the two zeros are equal.\<close>

definition fgt :: "number \<Rightarrow> number \<Rightarrow> bool" where
  "fgt x y =
     (if x = NaN \<or> y = NaN then False
      else if x = PosInf then y \<noteq> PosInf
      else if y = NegInf then x \<noteq> NegInf
      else if x = NegInf \<or> y = PosInf then False
      else value_of x > value_of y)"

text \<open>The length of an array, as a number.\<close>

definition of_length :: "nat \<Rightarrow> number" where
  "of_length n = round_nearest (of_nat n)"

section \<open>Data model (src/models/Product.js)\<close>

text \<open>
  Object ids and byte buffers are strings. Only the fields of the product schema that the
  controllers read or write are kept.
\<close>

type_synonym objid = string
type_synonym buffer = string

record image =
  img_id :: objid
  url :: "string option"
  public_id :: "string option"

record rating_entry =
  user :: objid
  rating :: number
  review :: "string option"
  date :: nat

record product =
  price :: number
  discount :: number
  finalPrice :: number
  images :: "image list"
  ratings :: "rating_entry list"
  averageRating :: number

text \<open>
  The products collection maps the \<open>_id\<close> of a document to its other fields, so a
  document is handled together with the id it was found under.
\<close>

type_synonym db = "objid \<rightharpoonup> product"

text \<open>
  The body of a generic update request: \<open>req.body\<close> is handed over as it is, so it may
  name any path of the schema. A field that is absent is \<open>None\<close>.
\<close>

record update_body =
  body_price :: "number option"
  body_discount :: "number option"
  body_finalPrice :: "number option"
  body_images :: "image list option"
  body_ratings :: "rating_entry list option"
  body_averageRating :: "number option"

section \<open>External collaborators\<close>

text \<open>
  What Cloudinary answers: an upload resolves with \<open>secure_url\<close> and \<open>public_id\<close> or
  rejects with an error; \<open>uploader.destroy\<close> resolves with \<open>{result: 'ok'}\<close> or
  \<open>{result: 'not found'}\<close>, or rejects with an error.
\<close>

record uploaded =
  secure_url :: string
  res_public_id :: string

datatype destroy_result = Destroyed | NotFoundInStore

text \<open>
  The environment of one request. Every answer of the asset store and of the database is a
  parameter, so a theorem about all environments covers every way they may fail.
  The first argument of \<open>upload_outcome\<close> and \<open>destroy_outcome\<close> is the position of
  the call within its batch; \<open>upload_time\<close> and \<open>destroy_time\<close> say when the call at
  that position settles. \<open>new_oid\<close> is the sub-document id Mongoose gives the i-th image
  pushed, \<open>now\<close> is \<open>Date.now()\<close>.
\<close>

record env =
  upload_outcome :: "nat \<Rightarrow> buffer \<Rightarrow> string + uploaded"
  upload_time :: "nat \<Rightarrow> nat"
  destroy_outcome :: "nat \<Rightarrow> string \<Rightarrow> string + destroy_result"
  destroy_time :: "nat \<Rightarrow> nat"
  find_error :: "objid \<Rightarrow> string option"
  save_error :: "product \<Rightarrow> string option"
  remove_error :: "objid \<Rightarrow> string option"
  update_error :: "objid \<Rightarrow> update_body \<Rightarrow> string option"
  new_oid :: "nat \<Rightarrow> objid"
  now :: nat

text \<open>The calls a controller issues, in the order it issues them.\<close>

datatype call =
    FindById objid
  | Save objid
  | DeleteOne objid
  | FindByIdAndUpdate objid
  | Upload buffer
  | Destroy string

text \<open>\<open>res.status(n).json(...)\<close>: the status and the JSON body.\<close>

datatype payload =
    Data product
  | Message string
  | Error string
  | Errors "string list"

datatype response = Response nat payload

section \<open>Promise.all\<close>

text \<open>
  \<open>Promise.all\<close> resolves with all values, in input order, when every promise resolves.
  Otherwise it rejects with the reason of the promise that rejects first in time;
  among promises settling at the same time the earlier position wins.
\<close>

fun rejections :: "nat \<Rightarrow> (string + 'a) list \<Rightarrow> (nat \<times> string) list" where
  "rejections i [] = []"
| "rejections i (Inl err # rs) = (i, err) # rejections (Suc i) rs"
| "rejections i (Inr v # rs) = rejections (Suc i) rs"

fun resolved :: "(string + 'a) list \<Rightarrow> 'a list" where
  "resolved [] = []"
| "resolved (Inl err # rs) = resolved rs"
| "resolved (Inr v # rs) = v # resolved rs"

fun earliest :: "(nat \<Rightarrow> nat) \<Rightarrow> nat \<times> string \<Rightarrow> (nat \<times> string) list \<Rightarrow> nat \<times> string" where
  "earliest t best [] = best"
| "earliest t best (r # rs) =
     (if t (fst r) < t (fst best) then earliest t r rs else earliest t best rs)"

definition promise_all :: "(nat \<Rightarrow> nat) \<Rightarrow> (string + 'a) list \<Rightarrow> string + 'a list" where
  "promise_all t rs =
     (case rejections 0 rs of
        [] \<Rightarrow> Inr (resolved rs)
      | r # others \<Rightarrow> Inl (snd (earliest t r others)))"

section \<open>src/utils/cloudinary.js\<close>

definition uploadToCloudinary :: "env \<Rightarrow> nat \<Rightarrow> buffer \<Rightarrow> string + uploaded" where
  "uploadToCloudinary e i buf = upload_outcome e i buf"

text \<open>The catch block logs the error and throws it again.\<close>

definition deleteFromCloudinary :: "env \<Rightarrow> nat \<Rightarrow> string \<Rightarrow> string + destroy_result" where
  "deleteFromCloudinary e i publicId =
     (case destroy_outcome e i publicId of
        Inr result \<Rightarrow> Inr result
      | Inl err \<Rightarrow> Inl err)"

section \<open>The product model: hook, method and repository calls\<close>

text \<open>\<open>productSchema.pre('save')\<close>.\<close>

definition pre_save :: "product \<Rightarrow> product" where
  "pre_save this =
     (if fgt (discount this) (Finite 0)
      then this\<lparr>finalPrice :=
                  fsub (price this) (fmul (price this) (fdiv (discount this) (Finite 100)))\<rparr>
      else this\<lparr>finalPrice := price this\<rparr>)"

text \<open>
  \<open>doc.save()\<close>: rejects when validation or the write fails; otherwise the hook runs and
  the document, as it stands in memory, is written under its id.
\<close>

definition save :: "env \<Rightarrow> objid \<Rightarrow> product \<Rightarrow> db \<Rightarrow> string + product \<times> db" where
  "save e pid doc d =
     (case save_error e doc of
        Some err \<Rightarrow> Inl err
      | None \<Rightarrow> (let doc' = pre_save doc in Inr (doc', d(pid \<mapsto> doc'))))"

definition findById :: "env \<Rightarrow> objid \<Rightarrow> db \<Rightarrow> string + product option" where
  "findById e pid d =
     (case find_error e pid of
        Some err \<Rightarrow> Inl err
      | None \<Rightarrow> Inr (d pid))"

definition deleteOne :: "env \<Rightarrow> objid \<Rightarrow> db \<Rightarrow> string + db" where
  "deleteOne e pid d =
     (case remove_error e pid of
        Some err \<Rightarrow> Inl err
      | None \<Rightarrow> Inr (d(pid := None)))"

text \<open>The assignment part of \<open>productSchema.methods.updateAverageRating\<close>.\<close>

definition assignAverageRating :: "product \<Rightarrow> product" where
  "assignAverageRating this =
     (if length (ratings this) = 0
      then this\<lparr>averageRating := Finite 0\<rparr>
      else (let sum = foldl (\<lambda>acc item. fadd acc (rating item)) (Finite 0) (ratings this)
            in this\<lparr>averageRating := fdiv sum (of_length (length (ratings this)))\<rparr>))"

definition updateAverageRating ::
  "env \<Rightarrow> objid \<Rightarrow> product \<Rightarrow> db \<Rightarrow> string + product \<times> db" where
  "updateAverageRating e pid this d = save e pid (assignAverageRating this) d"

text \<open>
  \<open>Product.findByIdAndUpdate(id, body, {new: true, runValidators: true})\<close> is a Mongoose
  query: it sets the fields named in the body on the stored document and returns the
  updated document, or null when there is none. Save middleware belongs to \<open>doc.save()\<close>
  and is not run by a query, and the source registers no query middleware.
\<close>

definition apply_body :: "update_body \<Rightarrow> product \<Rightarrow> product" where
  "apply_body b doc =
     (let d1 = (case body_price b of None \<Rightarrow> doc | Some v \<Rightarrow> doc\<lparr>price := v\<rparr>);
          d2 = (case body_discount b of None \<Rightarrow> d1 | Some v \<Rightarrow> d1\<lparr>discount := v\<rparr>);
          d3 = (case body_finalPrice b of None \<Rightarrow> d2 | Some v \<Rightarrow> d2\<lparr>finalPrice := v\<rparr>);
          d4 = (case body_images b of None \<Rightarrow> d3 | Some v \<Rightarrow> d3\<lparr>images := v\<rparr>);
          d5 = (case body_ratings b of None \<Rightarrow> d4 | Some v \<Rightarrow> d4\<lparr>ratings := v\<rparr>);
          d6 = (case body_averageRating b of
                  None \<Rightarrow> d5
                | Some v \<Rightarrow> d5\<lparr>averageRating := v\<rparr>)
      in d6)"

definition findByIdAndUpdate ::
  "env \<Rightarrow> objid \<Rightarrow> update_body \<Rightarrow> db \<Rightarrow> string + product option \<times> db" where
  "findByIdAndUpdate e pid b d =
     (case update_error e pid b of
        Some err \<Rightarrow> Inl err
      | None \<Rightarrow>
          (case d pid of
             None \<Rightarrow> Inr (None, d)
           | Some doc \<Rightarrow> (let doc' = apply_body b doc in Inr (Some doc', d(pid \<mapsto> doc')))))"

section \<open>The product controller\<close>

text \<open>
  Every controller takes the environment, the request and the collection, and returns
  the response, the collection afterwards and the calls it issued. An exception thrown
  inside the \<open>try\<close> block is an \<open>Inl\<close> value that ends in the \<open>catch\<close> response,
  status 500 with the error's message.
\<close>

type_synonym outcome = "response \<times> db \<times> call list"

text \<open>
  \<open>if (image.public_id) { await deleteFromCloudinary(image.public_id); }\<close>: undefined and
  the empty string are falsy. The result is the error thrown, if any, and the calls issued.
\<close>

fun destroyImage :: "env \<Rightarrow> nat \<Rightarrow> string option \<Rightarrow> string option \<times> call list" where
  "destroyImage e i None = (None, [])"
| "destroyImage e i (Some publicId) =
     (if publicId = [] then (None, [])
      else (case deleteFromCloudinary e i publicId of
              Inl err \<Rightarrow> (Some err, [Destroy publicId])
            | Inr result \<Rightarrow> (None, [Destroy publicId])))"

text \<open>\<open>req.files.map(file => uploadToCloudinary(file.buffer))\<close>: every upload is started.\<close>

definition uploadPromises :: "env \<Rightarrow> buffer list \<Rightarrow> (string + uploaded) list" where
  "uploadPromises e files = map (\<lambda>(i, file). uploadToCloudinary e i file) (enumerate 0 files)"

text \<open>
  The uploaded results as image entries; pushed onto a document array, each becomes a
  sub-document with an id of its own.
\<close>

definition newImages :: "env \<Rightarrow> uploaded list \<Rightarrow> image list" where
  "newImages e uploadedImages =
     map (\<lambda>(i, up). \<lparr>img_id = new_oid e i, url = Some (secure_url up),
                       public_id = Some (res_public_id up)\<rparr>)
         (enumerate 0 uploadedImages)"

definition uploadProductImages :: "env \<Rightarrow> objid \<Rightarrow> buffer list option \<Rightarrow> db \<Rightarrow> outcome" where
  "uploadProductImages e pid files d =
     (case files of
        None \<Rightarrow> (Response 400 (Error ''Please upload at least one image''), d, [])
      | Some fs \<Rightarrow>
          if length fs = 0
          then (Response 400 (Error ''Please upload at least one image''), d, [])
          else (case findById e pid d of
                  Inl err \<Rightarrow> (Response 500 (Error err), d, [FindById pid])
                | Inr None \<Rightarrow> (Response 404 (Error ''Product not found''), d, [FindById pid])
                | Inr (Some product) \<Rightarrow>
                    (let issued = FindById pid # map Upload fs
                     in case promise_all (upload_time e) (uploadPromises e fs) of
                          Inl err \<Rightarrow> (Response 500 (Error err), d, issued)
                        | Inr uploadedImages \<Rightarrow>
                            (let product' =
                                   product\<lparr>images := images product @ newImages e uploadedImages\<rparr>
                             in case save e pid product' d of
                                  Inl err \<Rightarrow> (Response 500 (Error err), d, issued @ [Save pid])
                                | Inr (saved, d') \<Rightarrow>
                                    (Response 200 (Data saved), d', issued @ [Save pid])))))"

definition deleteProductImage :: "env \<Rightarrow> objid \<Rightarrow> objid \<Rightarrow> db \<Rightarrow> outcome" where
  "deleteProductImage e pid imageId d =
     (case findById e pid d of
        Inl err \<Rightarrow> (Response 500 (Error err), d, [FindById pid])
      | Inr None \<Rightarrow> (Response 404 (Error ''Product not found''), d, [FindById pid])
      | Inr (Some product) \<Rightarrow>
          (case find (\<lambda>img. img_id img = imageId) (images product) of
             None \<Rightarrow> (Response 404 (Error ''Image not found''), d, [FindById pid])
           | Some imageToDelete \<Rightarrow>
               (case destroyImage e 0 (public_id imageToDelete) of
                  (Some err, issued) \<Rightarrow> (Response 500 (Error err), d, FindById pid # issued)
                | (None, issued) \<Rightarrow>
                    (let product' =
                           product\<lparr>images := filter (\<lambda>img. img_id img \<noteq> imageId) (images product)\<rparr>
                     in case save e pid product' d of
                          Inl err \<Rightarrow>
                            (Response 500 (Error err), d, FindById pid # issued @ [Save pid])
                        | Inr (saved, d') \<Rightarrow>
                            (Response 200 (Message ''Image deleted successfully''), d',
                             FindById pid # issued @ [Save pid])))))"

text \<open>
  The loop of \<open>deleteProduct\<close> awaits each deletion before the next one: an error
  leaves the loop, and the images after it are not visited.
\<close>

fun destroyEach :: "env \<Rightarrow> nat \<Rightarrow> image list \<Rightarrow> string option \<times> call list" where
  "destroyEach e i [] = (None, [])"
| "destroyEach e i (img # rest) =
     (case destroyImage e i (public_id img) of
        (Some err, issued) \<Rightarrow> (Some err, issued)
      | (None, issued) \<Rightarrow>
          (case destroyEach e (Suc i) rest of (r, issued') \<Rightarrow> (r, issued @ issued')))"

definition deleteProduct :: "env \<Rightarrow> objid \<Rightarrow> db \<Rightarrow> outcome" where
  "deleteProduct e pid d =
     (case findById e pid d of
        Inl err \<Rightarrow> (Response 500 (Error err), d, [FindById pid])
      | Inr None \<Rightarrow> (Response 404 (Error ''Product not found''), d, [FindById pid])
      | Inr (Some product) \<Rightarrow>
          (case destroyEach e 0 (images product) of
             (Some err, issued) \<Rightarrow> (Response 500 (Error err), d, FindById pid # issued)
           | (None, issued) \<Rightarrow>
               (case deleteOne e pid d of
                  Inl err \<Rightarrow>
                    (Response 500 (Error err), d, FindById pid # issued @ [DeleteOne pid])
                | Inr d' \<Rightarrow>
                    (Response 200 (Message ''Product deleted successfully''), d',
                     FindById pid # issued @ [DeleteOne pid]))))"

text \<open>
  The deletions of \<open>updateProductImages\<close>: one async callback per id, all started by
  \<open>map\<close> before any of them settles; an id that names no image, or an image without
  \<open>public_id\<close>, issues no call and resolves. A missing \<open>imagesToDelete\<close> or
  \<open>req.files\<close> is read as the empty list: the source skips the block, which is what
  the block does on an empty list.
\<close>

definition deletePromises ::
  "env \<Rightarrow> image list \<Rightarrow> objid list \<Rightarrow> (string option \<times> call list) list" where
  "deletePromises e imgs imagesToDelete =
     map (\<lambda>(i, imageId).
            case find (\<lambda>img. img_id img = imageId) imgs of
              None \<Rightarrow> (None, [])
            | Some img \<Rightarrow> destroyImage e i (public_id img))
         (enumerate 0 imagesToDelete)"

definition settled :: "string option \<times> call list \<Rightarrow> string + unit" where
  "settled r = (case fst r of None \<Rightarrow> Inr () | Some err \<Rightarrow> Inl err)"

definition updateProductImages ::
  "env \<Rightarrow> objid \<Rightarrow> objid list option \<Rightarrow> buffer list option \<Rightarrow> db \<Rightarrow> outcome" where
  "updateProductImages e pid imagesToDelete files d =
     (case findById e pid d of
        Inl err \<Rightarrow> (Response 500 (Error err), d, [FindById pid])
      | Inr None \<Rightarrow> (Response 404 (Error ''Product not found''), d, [FindById pid])
      | Inr (Some product) \<Rightarrow>
          (let ids = (case imagesToDelete of None \<Rightarrow> [] | Some l \<Rightarrow> l);
               deletes = deletePromises e (images product) ids;
               issued1 = FindById pid # concat (map snd deletes)
           in case promise_all (destroy_time e) (map settled deletes) of
                Inl err \<Rightarrow> (Response 500 (Error err), d, issued1)
              | Inr deleted \<Rightarrow>
                  (let product1 =
                         (if length ids > 0
                          then product\<lparr>images :=
                                 filter (\<lambda>img. img_id img \<notin> set ids) (images product)\<rparr>
                          else product);
                       fs = (case files of None \<Rightarrow> [] | Some l \<Rightarrow> l);
                       issued2 = issued1 @ map Upload fs
                   in case promise_all (upload_time e) (uploadPromises e fs) of
                        Inl err \<Rightarrow> (Response 500 (Error err), d, issued2)
                      | Inr uploadedImages \<Rightarrow>
                          (let product2 =
                                 (if length fs > 0
                                  then product1\<lparr>images :=
                                         images product1 @ newImages e uploadedImages\<rparr>
                                  else product1)
                           in case save e pid product2 d of
                                Inl err \<Rightarrow> (Response 500 (Error err), d, issued2 @ [Save pid])
                              | Inr (saved, d') \<Rightarrow>
                                  (Response 200 (Data saved), d', issued2 @ [Save pid])))))"

text \<open>\<open>Array.prototype.findIndex\<close>: the first position that satisfies the test, or -1.\<close>

fun findIndex :: "('a \<Rightarrow> bool) \<Rightarrow> 'a list \<Rightarrow> int" where
  "findIndex P [] = - 1"
| "findIndex P (x # xs) =
     (if P x then 0 else (let i = findIndex P xs in if i < 0 then - 1 else i + 1))"

text \<open>
  \<open>errors\<close> is \<open>validationResult(req).array()\<close>, \<open>userId\<close> is \<open>req.user._id\<close>, and the
  rating and the review are the fields of the request body. A rating pushed without a
  date gets the schema default, \<open>Date.now\<close>.
\<close>

definition addProductRating ::
  "env \<Rightarrow> string list \<Rightarrow> objid \<Rightarrow> objid \<Rightarrow> number \<Rightarrow> string option \<Rightarrow> db \<Rightarrow> outcome" where
  "addProductRating e errors pid userId bodyRating bodyReview d =
     (if errors \<noteq> [] then (Response 400 (Errors errors), d, [])
      else (case findById e pid d of
              Inl err \<Rightarrow> (Response 500 (Error err), d, [FindById pid])
            | Inr None \<Rightarrow> (Response 404 (Error ''Product not found''), d, [FindById pid])
            | Inr (Some product) \<Rightarrow>
                (let existingRatingIndex = findIndex (\<lambda>r. user r = userId) (ratings product);
                     entry = \<lparr>user = userId, rating = bodyRating, review = bodyReview,
                              date = now e\<rparr>;
                     product' =
                       (if existingRatingIndex \<ge> 0
                        then product\<lparr>ratings := (ratings product)[nat existingRatingIndex := entry]\<rparr>
                        else product\<lparr>ratings := ratings product @ [entry]\<rparr>)
                 in case updateAverageRating e pid product' d of
                      Inl err \<Rightarrow> (Response 500 (Error err), d, [FindById pid, Save pid])
                    | Inr (saved, d') \<Rightarrow>
                        (Response 200 (Data saved), d', [FindById pid, Save pid]))))"

definition updateProduct :: "env \<Rightarrow> objid \<Rightarrow> update_body \<Rightarrow> db \<Rightarrow> outcome" where
  "updateProduct e pid body d =
     (case findByIdAndUpdate e pid body d of
        Inl err \<Rightarrow> (Response 500 (Error err), d, [FindByIdAndUpdate pid])
      | Inr (None, d') \<Rightarrow>
          (Response 404 (Error ''Product not found''), d', [FindByIdAndUpdate pid])
      | Inr (Some product, d') \<Rightarrow> (Response 200 (Data product), d', [FindByIdAndUpdate pid]))"

section \<open>Reference definitions and sample data\<close>

text \<open>
  The mean as the specification words it, in the arithmetic of the host: 0 for no scores,
  otherwise the sum, added up from 0 in list order, over the count.
\<close>

definition mean_of_scores :: "number list \<Rightarrow> number" where
  "mean_of_scores xs =
     (if xs = [] then Finite 0 else fdiv (foldl fadd (Finite 0) xs) (of_length (length xs)))"

text \<open>
  The public ids for which \<open>updateProductImages\<close> calls the asset store: for each id to
  delete, in order, the \<open>public_id\<close> of the first image with that id, when the image
  exists and the \<open>public_id\<close> is truthy. The environment does not occur in it.
\<close>

definition destroyTargets :: "image list \<Rightarrow> objid list \<Rightarrow> string list" where
  "destroyTargets imgs ids =
     concat (map (\<lambda>imageId.
                    case find (\<lambda>img. img_id img = imageId) imgs of
                      None \<Rightarrow> []
                    | Some img \<Rightarrow>
                        (case public_id img of
                           None \<Rightarrow> []
                         | Some publicId \<Rightarrow> if publicId = [] then [] else [publicId]))
                 ids)"

text \<open>A product with three images, a collection holding it, and a few environments.\<close>

definition imgA :: image where
  "imgA = \<lparr>img_id = ''A'', url = Some ''https://cdn/a.png'', public_id = Some ''products/a''\<rparr>"

definition imgB :: image where
  "imgB = \<lparr>img_id = ''B'', url = Some ''https://cdn/b.png'', public_id = Some ''products/b''\<rparr>"

definition imgC :: image where
  "imgC = \<lparr>img_id = ''C'', url = Some ''https://cdn/c.png'', public_id = Some ''products/c''\<rparr>"

definition shirt :: product where
  "shirt = \<lparr>price = Finite 100, discount = Finite 0, finalPrice = Finite 100,
            images = [imgA, imgB, imgC], ratings = [], averageRating = Finite 0\<rparr>"

definition catalog :: db where
  "catalog = [''p1'' \<mapsto> shirt]"

definition rated :: product where
  "rated = shirt\<lparr>ratings := [\<lparr>user = ''u1'', rating = Finite 3, review = None, date = 500\<rparr>],
                 averageRating := Finite 3\<rparr>"

definition twice_rated :: product where
  "twice_rated =
     shirt\<lparr>ratings := [\<lparr>user = ''u1'', rating = Finite 3, review = None, date = 500\<rparr>,
                       \<lparr>user = ''u1'', rating = Finite 4, review = None, date = 600\<rparr>],
           averageRating := Finite (7 / 2)\<rparr>"

definition rated_catalog :: db where
  "rated_catalog = [''p1'' \<mapsto> rated, ''p2'' \<mapsto> twice_rated]"

text \<open>The environment in which every call succeeds, and variants in which some fail.\<close>

definition quiet :: env where
  "quiet = \<lparr>upload_outcome = (\<lambda>i buf. Inr \<lparr>secure_url = ''https://cdn/'' @ buf,
                                            res_public_id = ''products/'' @ buf\<rparr>),
            upload_time = (\<lambda>i. i),
            destroy_outcome = (\<lambda>i publicId. Inr Destroyed),
            destroy_time = (\<lambda>i. i),
            find_error = (\<lambda>pid. None),
            save_error = (\<lambda>doc. None),
            remove_error = (\<lambda>pid. None),
            update_error = (\<lambda>pid b. None),
            new_oid = (\<lambda>i. ''N'' @ replicate i (CHR ''+'')),
            now = 1000\<rparr>"

definition second_upload_fails :: env where
  "second_upload_fails =
     quiet\<lparr>upload_outcome :=
             (\<lambda>i buf. if i = 1 then Inl ''upload failed'' else upload_outcome quiet i buf)\<rparr>"

definition all_uploads_fail :: env where
  "all_uploads_fail = quiet\<lparr>upload_outcome := (\<lambda>i buf. Inl ''upload failed'')\<rparr>"

definition first_destroy_fails :: env where
  "first_destroy_fails =
     quiet\<lparr>destroy_outcome :=
             (\<lambda>i publicId. if i = 0 then Inl ''destroy failed'' else Inr Destroyed)\<rparr>"

definition second_destroy_fails :: env where
  "second_destroy_fails =
     quiet\<lparr>destroy_outcome :=
             (\<lambda>i publicId. if i = 1 then Inl ''destroy failed'' else Inr Destroyed)\<rparr>"

text \<open>
  Uploads 0 and 2 are rejected, and upload 2 is rejected before upload 0; a lookup that
  throws for an id that is no ObjectId; a removal that fails.
\<close>

definition last_rejects_first :: env where
  "last_rejects_first =
     quiet\<lparr>upload_outcome :=
             (\<lambda>i buf. if i = 0 then Inl ''timeout''
                       else if i = 2 then Inl ''file too large''
                       else upload_outcome quiet i buf),
           upload_time := (\<lambda>i. 10 - i)\<rparr>"

definition cast_error :: env where
  "cast_error =
     quiet\<lparr>find_error :=
             (\<lambda>pid. if pid = ''not-an-id'' then Some ''Cast to ObjectId failed'' else None)\<rparr>"

definition removal_fails :: env where
  "removal_fails = quiet\<lparr>remove_error := (\<lambda>pid. Some ''write failed'')\<rparr>"

section \<open>Facts about numbers\<close>

lemma bitlen_0 [simp]: "bitlen 0 = 0"
  by (simp add: bitlen.simps)

lemma bitlen_1 [simp]: "bitlen (Suc 0) = 1"
  by (simp add: bitlen.simps)

lemma bitlen_numeral [simp]: "bitlen (numeral k) = Suc (bitlen (numeral k div 2))"
  by (subst bitlen.simps) simp

lemmas float_eval = fadd_def fsub_def fmul_def fdiv_def fgt_def of_length_def round_nearest_def
  quantum_def ilog2_def round_half_even_def pow2_def is_zero_def is_inf_def signed_zero_def
  infinity_def Let_def

lemma pow2_pos: "0 < pow2 k"
  by (simp add: pow2_def)

lemma round_half_even_of_int: "round_half_even (of_int f) = f"
  by (simp add: round_half_even_def)

text \<open>A value that doubles have is not changed by rounding.\<close>

lemma round_nearest_exact:
  assumes "is_double (Finite q)"
  shows "round_nearest q = Finite q"
proof (cases "q = 0")
  case True
  then show ?thesis by (simp add: round_nearest_def)
next
  case False
  define a where "a = \<bar>q\<bar>"
  define e where "e = quantum a"
  define f where "f = \<lfloor>a / pow2 e\<rfloor>"
  from assms False have bound: "a < pow2 1024" and whole: "a / pow2 e = of_int f"
    by (simp_all add: is_double_def Let_def a_def e_def f_def)
  have "of_int f * pow2 e = a"
    using whole pow2_pos [of e] by (simp add: field_simps)
  then have "of_int (round_half_even (a / pow2 e)) * pow2 e = a"
    by (simp add: whole round_half_even_of_int)
  moreover have "a \<noteq> 0" using False by (simp add: a_def)
  moreover have "(if q < 0 then - a else a) = q" by (simp add: a_def)
  ultimately show ?thesis
    using False bound
    by (auto simp: round_nearest_def Let_def a_def [symmetric] e_def [symmetric]
        split: if_splits)
qed

lemma hundred_percent: "fdiv (Finite 100) (Finite 100) = Finite 1"
  by (simp add: float_eval)

lemma fmul_one:
  assumes "is_double x" and "is_finite x"
  shows "fmul x (Finite 1) = x"
proof (cases x)
  case (Finite q)
  show ?thesis
  proof (cases "q = 0")
    case True
    with Finite show ?thesis by (simp add: fmul_def is_zero_def is_inf_def signed_zero_def)
  next
    case False
    with Finite assms(1) show ?thesis
      by (simp add: fmul_def is_zero_def is_inf_def round_nearest_exact)
  qed
next
  case NegZero
  then show ?thesis by (simp add: fmul_def is_zero_def is_inf_def signed_zero_def)
qed (use assms(2) in simp_all)

lemma fsub_self:
  assumes "is_finite x"
  shows "fsub x x = Finite 0"
proof (cases x)
  case (Finite q)
  then show ?thesis
    by (simp add: fsub_def fadd_def is_zero_def is_inf_def round_nearest_def)
next
  case NegZero
  then show ?thesis by (simp add: fsub_def fadd_def is_zero_def is_inf_def)
qed (use assms in simp_all)

text \<open>
  Two roundings of the host, as a check of the arithmetic: price 100 with discount 55
  gives 44.99999999999999, and the scores 1, 2, 2 have the mean 1.6666666666666667.
\<close>

lemma discount_55_rounds:
  "fsub (Finite 100) (fmul (Finite 100) (fdiv (Finite 55) (Finite 100))) =
     Finite (6333186975989759 / 140737488355328)"
  by (simp add: float_eval)

lemma mean_1_2_2_rounds:
  "mean_of_scores [Finite 1, Finite 2, Finite 2] = Finite (7505999378950827 / 4503599627370496)"
  by (simp add: mean_of_scores_def float_eval)

section \<open>Promise.all, uploads and the save hook\<close>

lemma rejections_Nil_iff: "rejections i rs = [] \<longleftrightarrow> (\<forall>r \<in> set rs. \<not> isl r)"
  by (induction i rs rule: rejections.induct) auto

lemma rejections_sound:
  "(j, err) \<in> set (rejections i rs) \<Longrightarrow> i \<le> j \<and> j - i < length rs \<and> rs ! (j - i) = Inl err"
proof (induction i rs rule: rejections.induct)
  case (1 i)
  then show ?case by simp
next
  case (2 i err' rs)
  then show ?case by (auto simp: nth_Cons' Suc_diff_le)
next
  case (3 i v rs)
  then show ?case by (auto simp: nth_Cons' Suc_diff_le)
qed

lemma earliest_mem: "earliest t b rs \<in> set (b # rs)"
  by (induction t b rs rule: earliest.induct) auto

lemma promise_all_Inl:
  assumes "promise_all t rs = Inl err"
  shows "\<exists>i < length rs. rs ! i = Inl err"
proof -
  from assms obtain r others where rej: "rejections 0 rs = r # others"
    and err: "err = snd (earliest t r others)"
    by (auto simp: promise_all_def split: list.splits)
  have "earliest t r others \<in> set (rejections 0 rs)"
    using earliest_mem [of t r others] rej by simp
  then have "(fst (earliest t r others), err) \<in> set (rejections 0 rs)"
    using err by simp
  from rejections_sound [OF this] show ?thesis by auto
qed

lemma promise_all_rejects:
  assumes "\<exists>r \<in> set rs. isl r"
  shows "\<exists>err. promise_all t rs = Inl err"
  using assms rejections_Nil_iff [of 0 rs]
  by (auto simp: promise_all_def split: list.splits)

lemma promise_all_Inr:
  assumes "\<forall>r \<in> set rs. \<not> isl r"
  shows "promise_all t rs = Inr (resolved rs)"
  using assms rejections_Nil_iff [of 0 rs]
  by (auto simp: promise_all_def split: list.splits)

lemma rejections_complete:
  "k < length rs \<Longrightarrow> rs ! k = Inl err \<Longrightarrow> (i + k, err) \<in> set (rejections i rs)"
proof (induction i rs arbitrary: k rule: rejections.induct)
  case (1 i)
  then show ?case by simp
next
  case (2 i err' rs)
  then show ?case by (cases k) auto
next
  case (3 i v rs)
  then show ?case by (cases k) auto
qed

lemma rejections_sorted: "sorted_wrt (\<lambda>a b. fst a < fst b) (rejections i rs)"
proof (induction i rs rule: rejections.induct)
  case (1 i)
  then show ?case by simp
next
  case (2 i err rs)
  have "i < fst x" if "x \<in> set (rejections (Suc i) rs)" for x
    using rejections_sound [of "fst x" "snd x" "Suc i" rs] that by simp
  with 2 show ?case by simp
next
  case (3 i v rs)
  then show ?case by simp
qed

text \<open>
  The rejection that wins stands in the list after rejections that settle strictly later
  and before rejections that settle no earlier.
\<close>

lemma earliest_spec:
  "\<exists>pre post. b # rs = pre @ earliest t b rs # post
     \<and> (\<forall>x \<in> set pre. t (fst (earliest t b rs)) < t (fst x))
     \<and> (\<forall>x \<in> set post. t (fst (earliest t b rs)) \<le> t (fst x))"
proof (induction rs arbitrary: b)
  case Nil
  have "[b] = [] @ earliest t b [] # []" by simp
  then show ?case by (metis empty_iff list.set(1))
next
  case (Cons r rs)
  show ?case
  proof (cases "t (fst r) < t (fst b)")
    case True
    define w where "w = earliest t r rs"
    from Cons.IH [of r] obtain pre post where sp: "r # rs = pre @ w # post"
      and before: "\<forall>x \<in> set pre. t (fst w) < t (fst x)"
      and after: "\<forall>x \<in> set post. t (fst w) \<le> t (fst x)"
      by (auto simp: w_def)
    have "t (fst w) \<le> t (fst r)"
    proof (cases pre)
      case Nil
      with sp show ?thesis by simp
    next
      case (Cons p pre')
      with sp have "r \<in> set pre" by simp
      with before show ?thesis by auto
    qed
    with True have "t (fst w) < t (fst b)" by simp
    with before have "\<forall>x \<in> set (b # pre). t (fst w) < t (fst x)" by simp
    moreover have "b # r # rs = (b # pre) @ w # post" using sp by simp
    moreover have "earliest t b (r # rs) = w" using True by (simp add: w_def)
    ultimately show ?thesis using after by blast
  next
    case False
    define w where "w = earliest t b rs"
    have win: "earliest t b (r # rs) = w" using False by (simp add: w_def)
    from Cons.IH [of b] obtain pre post where sp: "b # rs = pre @ w # post"
      and before: "\<forall>x \<in> set pre. t (fst w) < t (fst x)"
      and after: "\<forall>x \<in> set post. t (fst w) \<le> t (fst x)"
      by (auto simp: w_def)
    show ?thesis
    proof (cases pre)
      case Nil
      with sp have "w = b" "post = rs" by simp_all
      with False after have "\<forall>x \<in> set (r # post). t (fst w) \<le> t (fst x)" by auto
      moreover have "b # r # rs = [] @ w # (r # post)"
        using \<open>w = b\<close> \<open>post = rs\<close> by simp
      ultimately show ?thesis unfolding win by (metis empty_iff list.set(1))
    next
      case (Cons p pre')
      with sp have p: "p = b" and rs: "rs = pre' @ w # post" by simp_all
      from before Cons p have "t (fst w) < t (fst b)" by simp
      with False have "t (fst w) < t (fst r)" by simp
      with before Cons p have "\<forall>x \<in> set (b # r # pre'). t (fst w) < t (fst x)" by simp
      moreover have "b # r # rs = (b # r # pre') @ w # post" using rs by simp
      ultimately show ?thesis unfolding win using after by blast
    qed
  qed
qed

text \<open>
  What \<open>promise_all\<close> rejects with: the reason of a rejected promise such that no
  rejected promise settles before it, and none at an earlier position settles with it.
\<close>

lemma promise_all_first:
  assumes "promise_all t rs = Inl err"
  shows "\<exists>i < length rs. rs ! i = Inl err
           \<and> (\<forall>j < length rs. isl (rs ! j) \<longrightarrow> t i \<le> t j \<and> (j < i \<longrightarrow> t i < t j))"
proof -
  from assms obtain r others where rej: "rejections 0 rs = r # others"
    and err: "err = snd (earliest t r others)"
    by (auto simp: promise_all_def split: list.splits)
  define w where "w = earliest t r others"
  define i where "i = fst w"
  from earliest_spec [of r others t] obtain pre post where sp: "r # others = pre @ w # post"
    and before: "\<forall>x \<in> set pre. t i < t (fst x)"
    and after: "\<forall>x \<in> set post. t i \<le> t (fst x)"
    by (auto simp: w_def i_def)
  have mem: "(i, err) \<in> set (rejections 0 rs)"
    using sp rej err by (simp add: w_def [symmetric] i_def)
  from rejections_sound [OF this] have i: "i < length rs" "rs ! i = Inl err" by simp_all
  have sorted: "sorted_wrt (\<lambda>a b. fst a < fst b) (pre @ w # post)"
    using rejections_sorted [of 0 rs] rej sp by simp
  have "t i \<le> t j \<and> (j < i \<longrightarrow> t i < t j)" if "j < length rs" "isl (rs ! j)" for j
  proof -
    from that(2) obtain err' where "rs ! j = Inl err'" by (cases "rs ! j") auto
    from rejections_complete [OF that(1) this, of 0]
    have "(j, err') \<in> set (pre @ w # post)" using rej sp by simp
    then consider "(j, err') \<in> set pre" | "(j, err') = w" | "(j, err') \<in> set post" by auto
    then show ?thesis
    proof cases
      case 1
      with before show ?thesis by force
    next
      case 2
      then have "j = i" by (auto simp: i_def)
      then show ?thesis by simp
    next
      case 3
      with sorted have "i < j" by (auto simp: sorted_wrt_append i_def)
      with 3 after show ?thesis by force
    qed
  qed
  with i show ?thesis by blast
qed

lemma length_uploadPromises: "length (uploadPromises e fs) = length fs"
  by (simp add: uploadPromises_def)

lemma nth_uploadPromises:
  "i < length fs \<Longrightarrow> uploadPromises e fs ! i = upload_outcome e i (fs ! i)"
  by (simp add: uploadPromises_def uploadToCloudinary_def nth_enumerate_eq)

lemma averageRating_assign:
  "averageRating (assignAverageRating p) = mean_of_scores (map rating (ratings p))"
  by (simp add: assignAverageRating_def mean_of_scores_def foldl_map Let_def)

lemma ratings_assign [simp]: "ratings (assignAverageRating p) = ratings p"
  by (simp add: assignAverageRating_def Let_def)

lemma pre_save_fields [simp]:
  "ratings (pre_save p) = ratings p" "images (pre_save p) = images p"
  "averageRating (pre_save p) = averageRating p" "price (pre_save p) = price p"
  "discount (pre_save p) = discount p"
  by (simp_all add: pre_save_def)

lemma resolved_map_Inr: "resolved (map Inr vs) = vs"
  by (induction vs) auto

lemma uploadPromises_all_Inr:
  assumes "length ups = length fs"
    and "\<forall>i < length fs. upload_outcome e i (fs ! i) = Inr (ups ! i)"
  shows "uploadPromises e fs = map Inr ups"
  using assms by (auto simp: list_eq_iff_nth_eq length_uploadPromises nth_uploadPromises)

lemma uploads_rejected:
  assumes "\<exists>i < length fs. isl (upload_outcome e i (fs ! i))"
  shows "\<exists>i < length fs. \<exists>err. upload_outcome e i (fs ! i) = Inl err
           \<and> promise_all (upload_time e) (uploadPromises e fs) = Inl err"
proof -
  from assms obtain i where "i < length fs" "isl (uploadPromises e fs ! i)"
    by (auto simp: nth_uploadPromises)
  then have "\<exists>r \<in> set (uploadPromises e fs). isl r"
    by (metis length_uploadPromises nth_mem)
  from promise_all_rejects [OF this]
  obtain err where err: "promise_all (upload_time e) (uploadPromises e fs) = Inl err" ..
  from promise_all_Inl [OF err] obtain j where "j < length fs" "uploadPromises e fs ! j = Inl err"
    by (auto simp: length_uploadPromises)
  with err show ?thesis by (auto simp: nth_uploadPromises)
qed


lemma uploads_rejected_first:
  assumes "\<exists>i < length fs. isl (upload_outcome e i (fs ! i))"
  shows "\<exists>i < length fs. \<exists>err. upload_outcome e i (fs ! i) = Inl err
           \<and> (\<forall>j < length fs. isl (upload_outcome e j (fs ! j)) \<longrightarrow>
                  upload_time e i \<le> upload_time e j
                  \<and> (j < i \<longrightarrow> upload_time e i < upload_time e j))
           \<and> promise_all (upload_time e) (uploadPromises e fs) = Inl err"
proof -
  from uploads_rejected [OF assms]
  obtain err where err: "promise_all (upload_time e) (uploadPromises e fs) = Inl err" by blast
  from promise_all_first [OF err] obtain i where i: "i < length fs"
    "uploadPromises e fs ! i = Inl err"
    "\<forall>j < length fs. isl (uploadPromises e fs ! j) \<longrightarrow>
         upload_time e i \<le> upload_time e j \<and> (j < i \<longrightarrow> upload_time e i < upload_time e j)"
    by (auto simp: length_uploadPromises)
  then have "upload_outcome e i (fs ! i) = Inl err"
    "\<forall>j < length fs. isl (upload_outcome e j (fs ! j)) \<longrightarrow>
         upload_time e i \<le> upload_time e j \<and> (j < i \<longrightarrow> upload_time e i < upload_time e j)"
    by (simp_all add: nth_uploadPromises)
  with i(1) err show ?thesis by blast
qed

lemma uploads_resolved:
  assumes "length ups = length fs"
    and "\<forall>i < length fs. upload_outcome e i (fs ! i) = Inr (ups ! i)"
  shows "promise_all (upload_time e) (uploadPromises e fs) = Inr ups"
proof -
  have eq: "uploadPromises e fs = map Inr ups"
    by (rule uploadPromises_all_Inr [OF assms])
  have "\<forall>r \<in> set (map Inr ups :: (string + uploaded) list). \<not> isl r" by auto
  from promise_all_Inr [OF this] show ?thesis
    by (simp add: eq resolved_map_Inr)
qed

lemma newImages_Nil [simp]: "newImages e [] = []"
  by (simp add: newImages_def)

section \<open>Calls to the asset store for deletions\<close>

lemma snd_destroyImage:
  "snd (destroyImage e i x) =
     (case x of None \<Rightarrow> [] | Some s \<Rightarrow> if s = [] then [] else [Destroy s])"
  by (cases x) (auto split: sum.splits)

lemma fst_destroyImage:
  "fst (destroyImage e i x) =
     (case x of
        None \<Rightarrow> None
      | Some s \<Rightarrow> if s = [] then None
                  else (case destroy_outcome e i s of Inl err \<Rightarrow> Some err | Inr r \<Rightarrow> None))"
  by (cases x) (auto simp: deleteFromCloudinary_def split: sum.splits)

lemma issued_deletePromises_aux:
  "concat (map snd (map (\<lambda>(i, imageId).
            case find (\<lambda>img. img_id img = imageId) imgs of
              None \<Rightarrow> (None, [])
            | Some img \<Rightarrow> destroyImage e i (public_id img)) (enumerate k ids)))
   = map Destroy (destroyTargets imgs ids)"
  by (induction ids arbitrary: k)
     (auto simp: destroyTargets_def snd_destroyImage split: option.splits)

lemma issued_deletePromises:
  "concat (map snd (deletePromises e imgs ids)) = map Destroy (destroyTargets imgs ids)"
  unfolding deletePromises_def by (rule issued_deletePromises_aux)

lemma settled_isl: "isl (settled r) \<longleftrightarrow> fst r \<noteq> None"
  by (cases "fst r") (auto simp: settled_def)

lemma settled_Inl: "settled r = Inl err \<longleftrightarrow> fst r = Some err"
  by (cases "fst r") (auto simp: settled_def)

lemma deletes_rejected:
  assumes "\<exists>r \<in> set ds. fst r \<noteq> None"
  shows "\<exists>r \<in> set ds. \<exists>err. fst r = Some err \<and> promise_all t (map settled ds) = Inl err"
proof -
  from assms have "\<exists>x \<in> set (map settled ds). isl x"
    by (auto simp: settled_isl)
  from promise_all_rejects [OF this]
  obtain err where err: "promise_all t (map settled ds) = Inl err" ..
  from promise_all_Inl [OF err] obtain i where "i < length ds" "settled (ds ! i) = Inl err"
    by auto
  then have "ds ! i \<in> set ds" "fst (ds ! i) = Some err"
    by (simp_all add: settled_Inl)
  with err show ?thesis by blast
qed

lemma deletes_resolved:
  assumes "\<forall>r \<in> set ds. fst r = None"
  shows "\<exists>vs. promise_all t (map settled ds) = Inr vs"
proof -
  from assms have "\<forall>x \<in> set (map settled ds). \<not> isl x"
    by (auto simp: settled_isl)
  from promise_all_Inr [OF this] show ?thesis by blast
qed

lemma destroyEach_None_iff:
  "fst (destroyEach e k imgs) = None \<longleftrightarrow>
     (\<forall>i < length imgs. fst (destroyImage e (k + i) (public_id (imgs ! i))) = None)"
proof (induction imgs arbitrary: k)
  case Nil
  then show ?case by simp
next
  case (Cons img rest)
  show ?case
  proof (cases "fst (destroyImage e k (public_id img))")
    case None
    then obtain issued where di: "destroyImage e k (public_id img) = (None, issued)"
      by (cases "destroyImage e k (public_id img)") auto
    have "fst (destroyEach e k (img # rest)) = fst (destroyEach e (Suc k) rest)"
      using di by (simp split: prod.splits)
    then show ?thesis
      using Cons.IH [of "Suc k"] None by (auto simp: less_Suc_eq_0_disj)
  next
    case (Some err)
    then obtain issued where di: "destroyImage e k (public_id img) = (Some err, issued)"
      by (cases "destroyImage e k (public_id img)") auto
    then show ?thesis by force
  qed
qed

lemma destroyEach_Some:
  "fst (destroyEach e k imgs) = Some err \<Longrightarrow>
     \<exists>i < length imgs. fst (destroyImage e (k + i) (public_id (imgs ! i))) = Some err
        \<and> (\<forall>j < i. fst (destroyImage e (k + j) (public_id (imgs ! j))) = None)
        \<and> destroyEach e k imgs = destroyEach e k (take (Suc i) imgs)"
proof (induction imgs arbitrary: k)
  case Nil
  then show ?case by simp
next
  case (Cons img rest)
  show ?case
  proof (cases "fst (destroyImage e k (public_id img))")
    case None
    then obtain issued where di: "destroyImage e k (public_id img) = (None, issued)"
      by (cases "destroyImage e k (public_id img)") auto
    have "fst (destroyEach e k (img # rest)) = fst (destroyEach e (Suc k) rest)"
      using di by (simp split: prod.splits)
    with Cons.prems have "fst (destroyEach e (Suc k) rest) = Some err" by simp
    from Cons.IH [OF this] obtain i where i: "i < length rest"
      "fst (destroyImage e (Suc k + i) (public_id (rest ! i))) = Some err"
      "\<forall>j < i. fst (destroyImage e (Suc k + j) (public_id (rest ! j))) = None"
      "destroyEach e (Suc k) rest = destroyEach e (Suc k) (take (Suc i) rest)" by blast
    have "\<forall>j < Suc i. fst (destroyImage e (k + j) (public_id ((img # rest) ! j))) = None"
      using i(3) None by (auto simp: less_Suc_eq_0_disj)
    moreover have "destroyEach e k (img # rest) = destroyEach e k (take (Suc (Suc i)) (img # rest))"
      using di i(4) by simp
    ultimately show ?thesis
      using i(1,2) by (intro exI [of _ "Suc i"]) simp
  next
    case (Some err')
    then obtain issued where di: "destroyImage e k (public_id img) = (Some err', issued)"
      by (cases "destroyImage e k (public_id img)") auto
    with Cons.prems have "err' = err" by simp
    with di Some show ?thesis by (intro exI [of _ 0]) simp
  qed
qed

section \<open>Positions in the rating list\<close>

lemma findIndex_ge: "- 1 \<le> findIndex P xs"
  by (induction xs) (auto simp: Let_def)

lemma findIndex_neg_iff: "findIndex P xs < 0 \<longleftrightarrow> (\<forall>x \<in> set xs. \<not> P x)"
proof (induction xs)
  case Nil
  then show ?case by simp
next
  case (Cons x xs)
  then show ?case
    using findIndex_ge [of P xs] by (auto simp: Let_def)
qed

lemma findIndex_found:
  "0 \<le> findIndex P xs \<Longrightarrow>
     nat (findIndex P xs) < length xs \<and> P (xs ! nat (findIndex P xs))"
proof (induction xs)
  case Nil
  then show ?case by simp
next
  case (Cons x xs)
  show ?case
  proof (cases "P x")
    case True
    then show ?thesis by simp
  next
    case False
    with Cons.prems have ge: "0 \<le> findIndex P xs"
      by (auto simp: Let_def split: if_splits)
    then have "findIndex P (x # xs) = findIndex P xs + 1"
      using False by (simp add: Let_def)
    moreover have "nat (findIndex P xs + 1) = Suc (nat (findIndex P xs))"
      using ge by simp
    ultimately show ?thesis
      using Cons.IH [OF ge] by simp
  qed
qed

lemma filter_update_same:
  "i < length xs \<Longrightarrow> P (xs ! i) \<Longrightarrow> P v \<Longrightarrow>
     length (filter P (xs[i := v])) = length (filter P xs)"
proof (induction xs arbitrary: i)
  case Nil
  then show ?case by simp
next
  case (Cons x xs)
  then show ?case by (cases i) auto
qed

section \<open>Adding images\<close>

text \<open>
  Claim C1. When the file sequence is not empty and at least one upload is rejected,
  \<open>uploadProductImages\<close> answers with an error, the collection is returned as it was
  (no image is appended, not even those whose upload succeeded) and no save is issued.
\<close>

theorem uploadProductImages_all_or_nothing:
  assumes "fs \<noteq> []"
    and "\<exists>i < length fs. isl (upload_outcome e i (fs ! i))"
  shows "\<exists>status msg issued.
           uploadProductImages e pid (Some fs) d = (Response status (Error msg), d, issued)
           \<and> status \<noteq> 200 \<and> Save pid \<notin> set issued"
proof -
  from assms(2) obtain i where "i < length fs" "isl (uploadPromises e fs ! i)"
    by (auto simp: nth_uploadPromises)
  then have "\<exists>r \<in> set (uploadPromises e fs). isl r"
    by (metis length_uploadPromises nth_mem)
  from promise_all_rejects [OF this]
  obtain err where "promise_all (upload_time e) (uploadPromises e fs) = Inl err" ..
  with assms(1) show ?thesis
    by (auto simp: uploadProductImages_def split: sum.splits option.splits)
qed

text \<open>Three files, the second upload rejected, on a product that exists.\<close>

theorem uploadProductImages_all_or_nothing_witness:
  "[''x'', ''y'', ''z''] \<noteq> ([] :: buffer list)
   \<and> isl (upload_outcome second_upload_fails 1 ([''x'', ''y'', ''z''] ! 1))
   \<and> catalog ''p1'' = Some shirt
   \<and> (\<exists>status msg issued.
         uploadProductImages second_upload_fails ''p1'' (Some [''x'', ''y'', ''z'']) catalog =
           (Response status (Error msg), catalog, issued)
         \<and> status \<noteq> 200 \<and> Save ''p1'' \<notin> set issued)"
proof -
  have a: "[''x'', ''y'', ''z''] \<noteq> ([] :: buffer list)" by simp
  have b: "\<exists>i < length [''x'', ''y'', ''z''].
             isl (upload_outcome second_upload_fails i ([''x'', ''y'', ''z''] ! i))"
    by (rule exI [of _ 1]) (simp add: second_upload_fails_def)
  show ?thesis
    using uploadProductImages_all_or_nothing [OF a b, of "''p1''" catalog]
    by (simp add: second_upload_fails_def catalog_def)
qed

text \<open>
  Claim C2, as the code has it. When the product exists and at least one upload is
  rejected, every upload has still been started, in input order, nothing is saved, and
  the answer is status 500 carrying only the message of one rejected upload: the one
  rejected first in time, and among those rejected at the same time the first in input
  order. Nothing in the answer says which files succeeded.
\<close>

theorem uploadProductImages_reports_one_error:
  assumes "d pid = Some p" and "find_error e pid = None" and "fs \<noteq> []"
    and "\<exists>i < length fs. isl (upload_outcome e i (fs ! i))"
  shows "\<exists>i < length fs. \<exists>err. upload_outcome e i (fs ! i) = Inl err
           \<and> (\<forall>j < length fs. isl (upload_outcome e j (fs ! j)) \<longrightarrow>
                  upload_time e i \<le> upload_time e j
                  \<and> (j < i \<longrightarrow> upload_time e i < upload_time e j))
           \<and> uploadProductImages e pid (Some fs) d =
               (Response 500 (Error err), d, FindById pid # map Upload fs)"
proof -
  from uploads_rejected_first [OF assms(4)] obtain i err where i: "i < length fs"
    "upload_outcome e i (fs ! i) = Inl err"
    "\<forall>j < length fs. isl (upload_outcome e j (fs ! j)) \<longrightarrow>
         upload_time e i \<le> upload_time e j \<and> (j < i \<longrightarrow> upload_time e i < upload_time e j)"
    "promise_all (upload_time e) (uploadPromises e fs) = Inl err" by blast
  from i(4) assms(1-3) have "uploadProductImages e pid (Some fs) d =
      (Response 500 (Error err), d, FindById pid # map Upload fs)"
    by (simp add: uploadProductImages_def findById_def)
  with i(1-3) show ?thesis by blast
qed

text \<open>
  Three files; the first and the third upload are rejected, the third before the first:
  the answer carries the third upload's message.
\<close>

theorem uploadProductImages_reports_one_error_witness:
  "catalog ''p1'' = Some shirt
   \<and> find_error last_rejects_first ''p1'' = None
   \<and> upload_outcome last_rejects_first 0 ([''x'', ''y'', ''z''] ! 0) = Inl ''timeout''
   \<and> upload_outcome last_rejects_first 2 ([''x'', ''y'', ''z''] ! 2) = Inl ''file too large''
   \<and> upload_time last_rejects_first 2 < upload_time last_rejects_first 0
   \<and> uploadProductImages last_rejects_first ''p1'' (Some [''x'', ''y'', ''z'']) catalog =
       (Response 500 (Error ''file too large''), catalog,
        [FindById ''p1'', Upload ''x'', Upload ''y'', Upload ''z''])"
proof -
  have a: "catalog ''p1'' = Some shirt" by (simp add: catalog_def)
  have b: "find_error last_rejects_first ''p1'' = None"
    by (simp add: last_rejects_first_def quiet_def)
  have c: "[''x'', ''y'', ''z''] \<noteq> ([] :: buffer list)" by simp
  have d: "\<exists>i < length [''x'', ''y'', ''z''].
             isl (upload_outcome last_rejects_first i ([''x'', ''y'', ''z''] ! i))"
    by (rule exI [of _ 0]) (simp add: last_rejects_first_def)
  from uploadProductImages_reports_one_error
         [where d = catalog and pid = "''p1''" and e = last_rejects_first, OF a b c d]
  obtain i err where i: "i < length [''x'', ''y'', ''z'']"
    "upload_outcome last_rejects_first i ([''x'', ''y'', ''z''] ! i) = Inl err"
    "\<forall>j < length [''x'', ''y'', ''z''].
       isl (upload_outcome last_rejects_first j ([''x'', ''y'', ''z''] ! j)) \<longrightarrow>
         upload_time last_rejects_first i \<le> upload_time last_rejects_first j
         \<and> (j < i \<longrightarrow> upload_time last_rejects_first i < upload_time last_rejects_first j)"
    "uploadProductImages last_rejects_first ''p1'' (Some [''x'', ''y'', ''z'']) catalog =
       (Response 500 (Error err), catalog, FindById ''p1'' # map Upload [''x'', ''y'', ''z''])"
    by blast
  have "isl (upload_outcome last_rejects_first 2 ([''x'', ''y'', ''z''] ! 2))"
    by (simp add: last_rejects_first_def)
  with i(3) have "upload_time last_rejects_first i \<le> upload_time last_rejects_first 2"
    by simp
  then have "2 \<le> i" by (simp add: last_rejects_first_def)
  with i(1) have "i = 2" by simp
  with i(2) have "err = ''file too large''" by (simp add: last_rejects_first_def)
  with i(4) a b show ?thesis by (simp add: last_rejects_first_def)
qed

text \<open>
  The claim as stated fails: when only the second of three uploads is rejected and when all
  three are, the answer is the same, although the first file succeeded in one case and
  failed in the other.
\<close>

theorem uploadProductImages_error_hides_outcomes:
  "fst (uploadProductImages second_upload_fails ''p1'' (Some [''x'', ''y'', ''z'']) catalog) =
     Response 500 (Error ''upload failed'')
   \<and> fst (uploadProductImages all_uploads_fail ''p1'' (Some [''x'', ''y'', ''z'']) catalog) =
     Response 500 (Error ''upload failed'')
   \<and> \<not> isl (upload_outcome second_upload_fails 0 ''x'')
   \<and> isl (upload_outcome all_uploads_fail 0 ''x'')"
  by (simp add: uploadProductImages_def findById_def promise_all_def uploadPromises_def
      uploadToCloudinary_def second_upload_fails_def all_uploads_fail_def quiet_def catalog_def
      enumerate_eq_zip upt_rec)

text \<open>
  Claim C10. With no file sequence, or an empty one, \<open>uploadProductImages\<close> answers 400
  at once: it issues no call at all (the product is not looked up, nothing is uploaded or
  saved) and the collection is returned as it was.
\<close>

theorem uploadProductImages_no_files:
  "uploadProductImages e pid None d =
     (Response 400 (Error ''Please upload at least one image''), d, [])
   \<and> uploadProductImages e pid (Some []) d =
     (Response 400 (Error ''Please upload at least one image''), d, [])"
  by (simp add: uploadProductImages_def)

section \<open>Deleting one image\<close>

text \<open>
  Claim C5, as the code has it. \<open>deleteProductImage\<close> answers 404 when the lookup finds
  no product and 404 when no image of the product has the given id; when the lookup
  itself throws, as it does for an id that is no ObjectId, it answers 500 with that
  error; and when the asset store rejects the deletion (a "not found" answer is not a
  rejection) it answers 500 with the store's error, after exactly one deletion call and
  with no save: the collection, and so the image entry, is as before.
\<close>

theorem deleteProductImage_errors:
  "(\<forall>err. find_error e pid = Some err \<longrightarrow>
      deleteProductImage e pid imageId d = (Response 500 (Error err), d, [FindById pid]))
   \<and> (find_error e pid = None \<and> d pid = None \<longrightarrow>
        deleteProductImage e pid imageId d =
          (Response 404 (Error ''Product not found''), d, [FindById pid]))
   \<and> (\<forall>p. find_error e pid = None \<and> d pid = Some p
            \<and> find (\<lambda>img. img_id img = imageId) (images p) = None \<longrightarrow>
        deleteProductImage e pid imageId d =
          (Response 404 (Error ''Image not found''), d, [FindById pid]))
   \<and> (\<forall>p img publicId err.
        find_error e pid = None \<and> d pid = Some p
        \<and> find (\<lambda>img. img_id img = imageId) (images p) = Some img
        \<and> public_id img = Some publicId \<and> publicId \<noteq> []
        \<and> destroy_outcome e 0 publicId = Inl err \<longrightarrow>
        deleteProductImage e pid imageId d =
          (Response 500 (Error err), d, [FindById pid, Destroy publicId]))"
  by (auto simp: deleteProductImage_def findById_def deleteFromCloudinary_def)

text \<open>
  A lookup that throws, an unknown product, an unknown image, and a deletion the store
  rejects.
\<close>

theorem deleteProductImage_errors_witness:
  "deleteProductImage cast_error ''not-an-id'' ''A'' catalog =
     (Response 500 (Error ''Cast to ObjectId failed''), catalog, [FindById ''not-an-id''])
   \<and> deleteProductImage first_destroy_fails ''p9'' ''A'' catalog =
     (Response 404 (Error ''Product not found''), catalog, [FindById ''p9''])
   \<and> deleteProductImage first_destroy_fails ''p1'' ''Z'' catalog =
     (Response 404 (Error ''Image not found''), catalog, [FindById ''p1''])
   \<and> deleteProductImage first_destroy_fails ''p1'' ''A'' catalog =
     (Response 500 (Error ''destroy failed''), catalog, [FindById ''p1'', Destroy ''products/a''])"
  using deleteProductImage_errors
          [where e = cast_error and d = catalog and imageId = "''A''" and pid = "''not-an-id''"]
    deleteProductImage_errors
          [where e = first_destroy_fails and d = catalog and imageId = "''A''" and pid = "''p9''"]
    deleteProductImage_errors
          [where e = first_destroy_fails and d = catalog and imageId = "''Z''" and pid = "''p1''"]
    deleteProductImage_errors
          [where e = first_destroy_fails and d = catalog and imageId = "''A''" and pid = "''p1''"]
  by (simp add: catalog_def shirt_def imgA_def imgB_def imgC_def first_destroy_fails_def
      cast_error_def quiet_def)

text \<open>
  The claim as stated fails: for an id that is no ObjectId there is no product, yet the
  answer is the 500 of the catch block, not a 404.
\<close>

theorem deleteProductImage_lookup_error_is_500:
  "catalog ''not-an-id'' = None
   \<and> deleteProductImage cast_error ''not-an-id'' ''A'' catalog =
       (Response 500 (Error ''Cast to ObjectId failed''), catalog, [FindById ''not-an-id''])"
  by (simp add: deleteProductImage_def findById_def cast_error_def quiet_def catalog_def)

section \<open>Replacing images\<close>

text \<open>
  Claim C3, as the code has it, for a product that exists. The deletion calls are issued
  for all ids, whatever their outcomes. If one of them is rejected, the answer is status
  500 with the message of a rejected deletion: no upload is started, nothing is saved,
  the collection is as before. If none is rejected but an upload is, the answer is
  status 500 again and nothing is saved. If no deletion and no upload is rejected and the
  save succeeds, the stored image list is the old one without the images named for
  deletion, followed by the new images in input order.
\<close>

theorem updateProductImages_delete_then_add:
  assumes "d pid = Some p" and "find_error e pid = None"
  shows "((\<exists>r \<in> set (deletePromises e (images p) ids). fst r \<noteq> None) \<longrightarrow>
            (\<exists>r \<in> set (deletePromises e (images p) ids). \<exists>err. fst r = Some err
               \<and> updateProductImages e pid (Some ids) files d =
                   (Response 500 (Error err), d,
                    FindById pid # map Destroy (destroyTargets (images p) ids))))
       \<and> ((\<forall>r \<in> set (deletePromises e (images p) ids). fst r = None)
            \<and> (\<exists>i < length fs. isl (upload_outcome e i (fs ! i))) \<longrightarrow>
            (\<exists>i < length fs. \<exists>err. upload_outcome e i (fs ! i) = Inl err
               \<and> updateProductImages e pid (Some ids) (Some fs) d =
                   (Response 500 (Error err), d,
                    FindById pid # map Destroy (destroyTargets (images p) ids) @ map Upload fs)))
       \<and> ((\<forall>r \<in> set (deletePromises e (images p) ids). fst r = None)
            \<and> length ups = length fs
            \<and> (\<forall>i < length fs. upload_outcome e i (fs ! i) = Inr (ups ! i))
            \<and> save_error e
                 (p\<lparr>images := filter (\<lambda>img. img_id img \<notin> set ids) (images p) @ newImages e ups\<rparr>)
               = None \<longrightarrow>
            updateProductImages e pid (Some ids) (Some fs) d =
              (Response 200
                 (Data (pre_save (p\<lparr>images := filter (\<lambda>img. img_id img \<notin> set ids) (images p)
                                               @ newImages e ups\<rparr>))),
               d(pid \<mapsto> pre_save (p\<lparr>images := filter (\<lambda>img. img_id img \<notin> set ids) (images p)
                                               @ newImages e ups\<rparr>)),
               FindById pid # map Destroy (destroyTargets (images p) ids) @ map Upload fs
                 @ [Save pid]))"
proof (intro conjI impI)
  assume "\<exists>r \<in> set (deletePromises e (images p) ids). fst r \<noteq> None"
  from deletes_rejected [OF this, of "destroy_time e"]
  obtain r err where r: "r \<in> set (deletePromises e (images p) ids)" "fst r = Some err"
    "promise_all (destroy_time e) (map settled (deletePromises e (images p) ids)) = Inl err"
    by blast
  have "updateProductImages e pid (Some ids) files d =
          (Response 500 (Error err), d,
           FindById pid # map Destroy (destroyTargets (images p) ids))"
    using assms r(3)
    by (simp add: updateProductImages_def findById_def issued_deletePromises Let_def)
  with r(1,2) show "\<exists>r \<in> set (deletePromises e (images p) ids). \<exists>err. fst r = Some err
               \<and> updateProductImages e pid (Some ids) files d =
                   (Response 500 (Error err), d,
                    FindById pid # map Destroy (destroyTargets (images p) ids))"
    by blast
next
  assume h: "(\<forall>r \<in> set (deletePromises e (images p) ids). fst r = None)
            \<and> (\<exists>i < length fs. isl (upload_outcome e i (fs ! i)))"
  from deletes_resolved [of "deletePromises e (images p) ids" "destroy_time e"] h
  obtain vs where vs:
    "promise_all (destroy_time e) (map settled (deletePromises e (images p) ids)) = Inr vs"
    by blast
  from h uploads_rejected [of fs e] obtain i err where i: "i < length fs"
    "upload_outcome e i (fs ! i) = Inl err"
    "promise_all (upload_time e) (uploadPromises e fs) = Inl err" by blast
  have "updateProductImages e pid (Some ids) (Some fs) d =
          (Response 500 (Error err), d,
           FindById pid # map Destroy (destroyTargets (images p) ids) @ map Upload fs)"
    using assms vs i(3)
    by (simp add: updateProductImages_def findById_def issued_deletePromises Let_def)
  with i(1,2) show "\<exists>i < length fs. \<exists>err. upload_outcome e i (fs ! i) = Inl err
               \<and> updateProductImages e pid (Some ids) (Some fs) d =
                   (Response 500 (Error err), d,
                    FindById pid # map Destroy (destroyTargets (images p) ids) @ map Upload fs)"
    by blast
next
  assume h: "(\<forall>r \<in> set (deletePromises e (images p) ids). fst r = None)
            \<and> length ups = length fs
            \<and> (\<forall>i < length fs. upload_outcome e i (fs ! i) = Inr (ups ! i))
            \<and> save_error e
                 (p\<lparr>images := filter (\<lambda>img. img_id img \<notin> set ids) (images p) @ newImages e ups\<rparr>)
               = None"
  from deletes_resolved [of "deletePromises e (images p) ids" "destroy_time e"] h
  obtain vs where vs:
    "promise_all (destroy_time e) (map settled (deletePromises e (images p) ids)) = Inr vs"
    by blast
  from h have up: "promise_all (upload_time e) (uploadPromises e fs) = Inr ups"
    by (simp add: uploads_resolved)
  have empty: "ups = []" if "fs = []"
    using h that by simp
  show "updateProductImages e pid (Some ids) (Some fs) d =
              (Response 200
                 (Data (pre_save (p\<lparr>images := filter (\<lambda>img. img_id img \<notin> set ids) (images p)
                                               @ newImages e ups\<rparr>))),
               d(pid \<mapsto> pre_save (p\<lparr>images := filter (\<lambda>img. img_id img \<notin> set ids) (images p)
                                               @ newImages e ups\<rparr>)),
               FindById pid # map Destroy (destroyTargets (images p) ids) @ map Upload fs
                 @ [Save pid])"
    using assms vs up h empty
    by (cases "ids = []"; cases "fs = []")
       (simp_all add: updateProductImages_def findById_def issued_deletePromises Let_def save_def)
qed

text \<open>
  A rejected deletion; deletions that succeed with a rejected upload; and a call in which
  everything succeeds.
\<close>

theorem updateProductImages_delete_then_add_witness:
  "updateProductImages first_destroy_fails ''p1'' (Some [''A'', ''B'']) (Some [''x'']) catalog =
     (Response 500 (Error ''destroy failed''), catalog,
      [FindById ''p1'', Destroy ''products/a'', Destroy ''products/b''])
   \<and> updateProductImages second_upload_fails ''p1'' (Some [''A'']) (Some [''x'', ''y'']) catalog =
     (Response 500 (Error ''upload failed''), catalog,
      [FindById ''p1'', Destroy ''products/a'', Upload ''x'', Upload ''y''])
   \<and> updateProductImages quiet ''p1'' (Some [''A'', ''B'']) (Some [''x'']) catalog =
     (Response 200
        (Data (shirt\<lparr>images := [imgC, \<lparr>img_id = ''N'', url = Some ''https://cdn/x'',
                                         public_id = Some ''products/x''\<rparr>]\<rparr>)),
      catalog(''p1'' \<mapsto>
        shirt\<lparr>images := [imgC, \<lparr>img_id = ''N'', url = Some ''https://cdn/x'',
                                  public_id = Some ''products/x''\<rparr>]\<rparr>),
      [FindById ''p1'', Destroy ''products/a'', Destroy ''products/b'', Upload ''x'',
       Save ''p1''])"
proof -
  have a: "catalog ''p1'' = Some shirt" by (simp add: catalog_def)
  have b: "find_error first_destroy_fails ''p1'' = None"
    "find_error second_upload_fails ''p1'' = None" "find_error quiet ''p1'' = None"
    by (simp_all add: first_destroy_fails_def second_upload_fails_def quiet_def)
  have imgs: "images shirt = [imgA, imgB, imgC]" by (simp add: shirt_def)
  have dp1: "deletePromises first_destroy_fails (images shirt) [''A'', ''B''] =
               [(Some ''destroy failed'', [Destroy ''products/a'']),
                (None, [Destroy ''products/b''])]"
    by (simp add: deletePromises_def imgs imgA_def imgB_def imgC_def deleteFromCloudinary_def
        first_destroy_fails_def quiet_def enumerate_eq_zip upt_rec)
  have dp2: "deletePromises second_upload_fails (images shirt) [''A''] =
               [(None, [Destroy ''products/a''])]"
    by (simp add: deletePromises_def imgs imgA_def imgB_def imgC_def deleteFromCloudinary_def
        second_upload_fails_def quiet_def enumerate_eq_zip upt_rec)
  have dp3: "deletePromises quiet (images shirt) [''A'', ''B''] =
               [(None, [Destroy ''products/a'']), (None, [Destroy ''products/b''])]"
    by (simp add: deletePromises_def imgs imgA_def imgB_def imgC_def deleteFromCloudinary_def
        quiet_def enumerate_eq_zip upt_rec)
  have tg: "destroyTargets (images shirt) [''A'', ''B''] = [''products/a'', ''products/b'']"
    "destroyTargets (images shirt) [''A''] = [''products/a'']"
    by (simp_all add: destroyTargets_def imgs imgA_def imgB_def imgC_def)
  have "updateProductImages first_destroy_fails ''p1'' (Some [''A'', ''B'']) (Some [''x''])
          catalog =
     (Response 500 (Error ''destroy failed''), catalog,
      [FindById ''p1'', Destroy ''products/a'', Destroy ''products/b''])"
    using updateProductImages_delete_then_add
            [where d = catalog and pid = "''p1''" and e = first_destroy_fails, OF a b(1),
              THEN conjunct1, of "[''A'', ''B'']" "Some [''x'']"]
    by (simp add: dp1 tg)
  moreover
  have h2: "(\<forall>r \<in> set (deletePromises second_upload_fails (images shirt) [''A'']). fst r = None)
            \<and> (\<exists>i < length [''x'', ''y''].
                  isl (upload_outcome second_upload_fails i ([''x'', ''y''] ! i)))"
    by (simp add: dp2) (rule exI [of _ 1], simp add: second_upload_fails_def)
  have "updateProductImages second_upload_fails ''p1'' (Some [''A'']) (Some [''x'', ''y''])
          catalog =
     (Response 500 (Error ''upload failed''), catalog,
      [FindById ''p1'', Destroy ''products/a'', Upload ''x'', Upload ''y''])"
    using updateProductImages_delete_then_add
            [where d = catalog and pid = "''p1''" and e = second_upload_fails, OF a b(2),
              THEN conjunct2, THEN conjunct1, rule_format, OF h2]
    by (auto simp: tg second_upload_fails_def quiet_def less_Suc_eq)
  moreover
  define ups where "ups = [\<lparr>secure_url = ''https://cdn/x'', res_public_id = ''products/x''\<rparr>]"
  have h3: "(\<forall>r \<in> set (deletePromises quiet (images shirt) [''A'', ''B'']). fst r = None)
            \<and> length ups = length [''x'']
            \<and> (\<forall>i < length [''x'']. upload_outcome quiet i ([''x''] ! i) = Inr (ups ! i))
            \<and> save_error quiet
                 (shirt\<lparr>images := filter (\<lambda>img. img_id img \<notin> set [''A'', ''B'']) (images shirt)
                                    @ newImages quiet ups\<rparr>)
               = None"
  proof (intro conjI)
    show "\<forall>r \<in> set (deletePromises quiet (images shirt) [''A'', ''B'']). fst r = None"
      by (simp add: dp3)
  qed (simp_all add: ups_def quiet_def)
  have "updateProductImages quiet ''p1'' (Some [''A'', ''B'']) (Some [''x'']) catalog =
     (Response 200
        (Data (shirt\<lparr>images := [imgC, \<lparr>img_id = ''N'', url = Some ''https://cdn/x'',
                                         public_id = Some ''products/x''\<rparr>]\<rparr>)),
      catalog(''p1'' \<mapsto>
        shirt\<lparr>images := [imgC, \<lparr>img_id = ''N'', url = Some ''https://cdn/x'',
                                  public_id = Some ''products/x''\<rparr>]\<rparr>),
      [FindById ''p1'', Destroy ''products/a'', Destroy ''products/b'', Upload ''x'',
       Save ''p1''])"
    using updateProductImages_delete_then_add
            [where d = catalog and pid = "''p1''" and e = quiet, OF a b(3),
              THEN conjunct2, THEN conjunct2, rule_format, OF h3, unfolded tg]
    by (simp add: ups_def newImages_def pre_save_def fgt_def shirt_def imgA_def imgB_def
        imgC_def quiet_def enumerate_eq_zip)
  ultimately show ?thesis by simp
qed

text \<open>
  The claim as stated fails: with ids A and B to delete, the deletion of A rejected, and one
  new file, the call answers 500 after the two deletion calls; no upload is started and
  nothing is saved, so B is still listed and the new image is not.
\<close>

theorem updateProductImages_aborts_on_failed_deletion:
  "updateProductImages first_destroy_fails ''p1'' (Some [''A'', ''B'']) (Some [''x'']) catalog =
     (Response 500 (Error ''destroy failed''), catalog,
      [FindById ''p1'', Destroy ''products/a'', Destroy ''products/b''])
   \<and> catalog ''p1'' = Some shirt
   \<and> images shirt = [imgA, imgB, imgC]"
  by (simp add: updateProductImages_def findById_def deletePromises_def settled_def
      promise_all_def deleteFromCloudinary_def first_destroy_fails_def quiet_def catalog_def
      shirt_def imgA_def imgB_def imgC_def enumerate_eq_zip upt_rec Let_def)

section \<open>Deleting a product\<close>

text \<open>
  Claim C4, as the code has it, for a product that exists. If the deletion of the image
  at position i is the first one rejected, the answer is status 500 with its error, the
  collection still holds the product, and the calls issued are those of the loop over
  the images up to position i: later images are not visited and the record is not
  removed. If no deletion is rejected, the removal is called: when it succeeds the
  record is removed, and when it fails the answer is status 500 with its error and the
  record stays. A "not found" answer of the store is not a rejection.
\<close>

theorem deleteProduct_blocked_by_failed_deletion:
  assumes "d pid = Some p" and "find_error e pid = None"
  shows "(\<forall>i err. i < length (images p)
            \<and> fst (destroyImage e i (public_id (images p ! i))) = Some err
            \<and> (\<forall>j < i. fst (destroyImage e j (public_id (images p ! j))) = None) \<longrightarrow>
            deleteProduct e pid d =
              (Response 500 (Error err), d,
               FindById pid # snd (destroyEach e 0 (take (Suc i) (images p)))))
       \<and> ((\<forall>i < length (images p). fst (destroyImage e i (public_id (images p ! i))) = None)
            \<and> remove_error e pid = None \<longrightarrow>
            deleteProduct e pid d =
              (Response 200 (Message ''Product deleted successfully''), d(pid := None),
               FindById pid # snd (destroyEach e 0 (images p)) @ [DeleteOne pid]))
       \<and> (\<forall>err. (\<forall>i < length (images p).
                      fst (destroyImage e i (public_id (images p ! i))) = None)
            \<and> remove_error e pid = Some err \<longrightarrow>
            deleteProduct e pid d =
              (Response 500 (Error err), d,
               FindById pid # snd (destroyEach e 0 (images p)) @ [DeleteOne pid]))
       \<and> (\<forall>i publicId. destroy_outcome e i publicId = Inr NotFoundInStore \<longrightarrow>
            fst (destroyImage e i (Some publicId)) = None)"
proof (intro conjI allI impI)
  fix i err
  assume h: "i < length (images p)
            \<and> fst (destroyImage e i (public_id (images p ! i))) = Some err
            \<and> (\<forall>j < i. fst (destroyImage e j (public_id (images p ! j))) = None)"
  from h have "fst (destroyEach e 0 (images p)) \<noteq> None"
    using destroyEach_None_iff [of e 0 "images p"] by auto
  then obtain err' where e': "fst (destroyEach e 0 (images p)) = Some err'" by auto
  from destroyEach_Some [OF this] obtain i' where i': "i' < length (images p)"
    "fst (destroyImage e i' (public_id (images p ! i'))) = Some err'"
    "\<forall>j < i'. fst (destroyImage e j (public_id (images p ! j))) = None"
    "destroyEach e 0 (images p) = destroyEach e 0 (take (Suc i') (images p))" by auto
  have "i' = i"
  proof (rule ccontr)
    assume "i' \<noteq> i"
    then consider "i' < i" | "i < i'" by linarith
    then show False
    proof cases
      case 1
      with h i'(2) show False by auto
    next
      case 2
      with h i'(3) show False by auto
    qed
  qed
  with h i'(2) have "err' = err" by simp
  obtain issued where "destroyEach e 0 (images p) = (Some err, issued)"
    using e' \<open>err' = err\<close> by (cases "destroyEach e 0 (images p)") auto
  moreover from this i'(4) \<open>i' = i\<close>
  have "snd (destroyEach e 0 (take (Suc i) (images p))) = issued" by simp
  ultimately show "deleteProduct e pid d =
              (Response 500 (Error err), d,
               FindById pid # snd (destroyEach e 0 (take (Suc i) (images p))))"
    using assms by (simp add: deleteProduct_def findById_def)
next
  assume h: "(\<forall>i < length (images p). fst (destroyImage e i (public_id (images p ! i))) = None)
            \<and> remove_error e pid = None"
  then have "fst (destroyEach e 0 (images p)) = None"
    using destroyEach_None_iff [of e 0 "images p"] by simp
  then obtain issued where "destroyEach e 0 (images p) = (None, issued)"
    by (cases "destroyEach e 0 (images p)") auto
  then show "deleteProduct e pid d =
              (Response 200 (Message ''Product deleted successfully''), d(pid := None),
               FindById pid # snd (destroyEach e 0 (images p)) @ [DeleteOne pid])"
    using assms h by (simp add: deleteProduct_def findById_def deleteOne_def)
next
  fix err
  assume h: "(\<forall>i < length (images p). fst (destroyImage e i (public_id (images p ! i))) = None)
            \<and> remove_error e pid = Some err"
  then have "fst (destroyEach e 0 (images p)) = None"
    using destroyEach_None_iff [of e 0 "images p"] by simp
  then obtain issued where "destroyEach e 0 (images p) = (None, issued)"
    by (cases "destroyEach e 0 (images p)") auto
  then show "deleteProduct e pid d =
              (Response 500 (Error err), d,
               FindById pid # snd (destroyEach e 0 (images p)) @ [DeleteOne pid])"
    using assms h by (simp add: deleteProduct_def findById_def deleteOne_def)
next
  fix i publicId
  assume "destroy_outcome e i publicId = Inr NotFoundInStore"
  then show "fst (destroyImage e i (Some publicId)) = None"
    by (simp add: deleteFromCloudinary_def)
qed

text \<open>
  Three images with the second deletion rejected; three deletions that succeed, followed
  by a removal that succeeds and by one that fails; and a store that answers "not found".
\<close>

theorem deleteProduct_blocked_by_failed_deletion_witness:
  "deleteProduct second_destroy_fails ''p1'' catalog =
     (Response 500 (Error ''destroy failed''), catalog,
      [FindById ''p1'', Destroy ''products/a'', Destroy ''products/b''])
   \<and> deleteProduct quiet ''p1'' catalog =
     (Response 200 (Message ''Product deleted successfully''), catalog(''p1'' := None),
      [FindById ''p1'', Destroy ''products/a'', Destroy ''products/b'', Destroy ''products/c'',
       DeleteOne ''p1''])
   \<and> deleteProduct removal_fails ''p1'' catalog =
     (Response 500 (Error ''write failed''), catalog,
      [FindById ''p1'', Destroy ''products/a'', Destroy ''products/b'', Destroy ''products/c'',
       DeleteOne ''p1''])
   \<and> fst (destroyImage (quiet\<lparr>destroy_outcome := (\<lambda>i publicId. Inr NotFoundInStore)\<rparr>) 0
            (Some ''products/a'')) = None"
proof -
  have a: "catalog ''p1'' = Some shirt" by (simp add: catalog_def)
  have b: "find_error second_destroy_fails ''p1'' = None" "find_error quiet ''p1'' = None"
    "find_error removal_fails ''p1'' = None"
    by (simp_all add: second_destroy_fails_def removal_fails_def quiet_def)
  note t1 = deleteProduct_blocked_by_failed_deletion
      [where d = catalog and pid = "''p1''" and e = second_destroy_fails, OF a b(1),
        THEN conjunct1, rule_format, of 1 "''destroy failed''"]
  note t2 = deleteProduct_blocked_by_failed_deletion
      [where d = catalog and pid = "''p1''" and e = quiet, OF a b(2),
        THEN conjunct2, THEN conjunct1]
  note t3 = deleteProduct_blocked_by_failed_deletion
      [where d = catalog and pid = "''p1''" and e = removal_fails, OF a b(3),
        THEN conjunct2, THEN conjunct2, THEN conjunct1, rule_format, of "''write failed''"]
  have b': "find_error (quiet\<lparr>destroy_outcome := (\<lambda>i publicId. Inr NotFoundInStore)\<rparr>) ''p1'' = None"
    by (simp add: quiet_def)
  note t4 = deleteProduct_blocked_by_failed_deletion
      [where d = catalog and pid = "''p1''"
         and e = "quiet\<lparr>destroy_outcome := (\<lambda>i publicId. Inr NotFoundInStore)\<rparr>", OF a b',
        THEN conjunct2, THEN conjunct2, THEN conjunct2, rule_format, of 0 "''products/a''"]
  have "deleteProduct second_destroy_fails ''p1'' catalog =
     (Response 500 (Error ''destroy failed''), catalog,
      [FindById ''p1'', Destroy ''products/a'', Destroy ''products/b''])"
    using t1
    by (simp add: shirt_def imgA_def imgB_def imgC_def second_destroy_fails_def quiet_def
        deleteFromCloudinary_def)
  moreover have "deleteProduct quiet ''p1'' catalog =
     (Response 200 (Message ''Product deleted successfully''), catalog(''p1'' := None),
      [FindById ''p1'', Destroy ''products/a'', Destroy ''products/b'', Destroy ''products/c'',
       DeleteOne ''p1''])"
  proof -
    have "fst (destroyImage quiet i x) = None" for i x
      by (cases x) (simp_all add: quiet_def deleteFromCloudinary_def)
    then have "(\<forall>i < length (images shirt).
                 fst (destroyImage quiet i (public_id (images shirt ! i))) = None)
               \<and> remove_error quiet ''p1'' = None"
      by (simp add: quiet_def)
    from t2 [rule_format, OF this] show ?thesis
      by (simp add: shirt_def imgA_def imgB_def imgC_def quiet_def deleteFromCloudinary_def)
  qed
  moreover have "deleteProduct removal_fails ''p1'' catalog =
     (Response 500 (Error ''write failed''), catalog,
      [FindById ''p1'', Destroy ''products/a'', Destroy ''products/b'', Destroy ''products/c'',
       DeleteOne ''p1''])"
  proof -
    have "fst (destroyImage removal_fails i x) = None" for i x
      by (cases x) (simp_all add: removal_fails_def quiet_def deleteFromCloudinary_def)
    then have "(\<forall>i < length (images shirt).
                 fst (destroyImage removal_fails i (public_id (images shirt ! i))) = None)
               \<and> remove_error removal_fails ''p1'' = Some ''write failed''"
      by (simp add: removal_fails_def)
    from t3 [OF this] show ?thesis
      by (simp add: shirt_def imgA_def imgB_def imgC_def removal_fails_def quiet_def
          deleteFromCloudinary_def)
  qed
  moreover have "fst (destroyImage (quiet\<lparr>destroy_outcome := (\<lambda>i publicId. Inr NotFoundInStore)\<rparr>) 0
            (Some ''products/a'')) = None"
    using t4 by simp
  ultimately show ?thesis by simp
qed

text \<open>
  The claim as stated fails: when the second of three deletions is rejected, the product
  is still in the collection, and the third deletion was never called.
\<close>

theorem deleteProduct_keeps_product_on_failure:
  "deleteProduct second_destroy_fails ''p1'' catalog =
     (Response 500 (Error ''destroy failed''), catalog,
      [FindById ''p1'', Destroy ''products/a'', Destroy ''products/b''])
   \<and> catalog ''p1'' = Some shirt"
  by (simp add: deleteProduct_def findById_def deleteFromCloudinary_def
      second_destroy_fails_def quiet_def catalog_def shirt_def imgA_def imgB_def imgC_def)

section \<open>Derived fields\<close>

text \<open>
  Claim C8, as the code has it, in the arithmetic of doubles. The save hook sets
  \<open>finalPrice\<close> to \<open>price - price * (discount / 100)\<close> when the discount is above 0
  and to \<open>price\<close> otherwise, and changes no other field. A discount of 0 gives the
  price; a discount of 100 gives 0 for every finite price; price 100 with discount 25
  gives 75.
\<close>

theorem recomputeFinalPrice_rule:
  "finalPrice (pre_save p) =
     (if fgt (discount p) (Finite 0)
      then fsub (price p) (fmul (price p) (fdiv (discount p) (Finite 100)))
      else price p)
   \<and> pre_save p = p\<lparr>finalPrice := finalPrice (pre_save p)\<rparr>
   \<and> finalPrice (pre_save (p\<lparr>discount := Finite 0\<rparr>)) = price p
   \<and> (is_double (price p) \<and> is_finite (price p) \<longrightarrow>
        finalPrice (pre_save (p\<lparr>discount := Finite 100\<rparr>)) = Finite 0)
   \<and> finalPrice (pre_save (p\<lparr>price := Finite 100, discount := Finite 25\<rparr>)) = Finite 75"
proof (intro conjI impI)
  show "finalPrice (pre_save p) =
     (if fgt (discount p) (Finite 0)
      then fsub (price p) (fmul (price p) (fdiv (discount p) (Finite 100)))
      else price p)"
    by (simp add: pre_save_def)
  show "pre_save p = p\<lparr>finalPrice := finalPrice (pre_save p)\<rparr>"
    by (simp add: pre_save_def)
  show "finalPrice (pre_save (p\<lparr>discount := Finite 0\<rparr>)) = price p"
    by (simp add: pre_save_def fgt_def)
  show "finalPrice (pre_save (p\<lparr>discount := Finite 100\<rparr>)) = Finite 0"
    if "is_double (price p) \<and> is_finite (price p)"
    using that by (simp add: pre_save_def fgt_def hundred_percent fmul_one fsub_self)
  have "fsub (Finite 100) (fmul (Finite 100) (fdiv (Finite 25) (Finite 100))) = Finite 75"
    by (simp add: float_eval)
  then show "finalPrice (pre_save (p\<lparr>price := Finite 100, discount := Finite 25\<rparr>)) = Finite 75"
    by (simp add: pre_save_def fgt_def)
qed

text \<open>The price 100 is a finite double, and with discount 100 the final price is 0.\<close>

theorem recomputeFinalPrice_rule_witness:
  "is_double (price shirt) \<and> is_finite (price shirt)
   \<and> finalPrice (pre_save (shirt\<lparr>discount := Finite 100\<rparr>)) = Finite 0"
proof -
  have h: "is_double (price shirt) \<and> is_finite (price shirt)"
    by (simp add: shirt_def is_double_def quantum_def ilog2_def pow2_def Let_def)
  from recomputeFinalPrice_rule [of shirt, THEN conjunct2, THEN conjunct2, THEN conjunct2,
      THEN conjunct1, rule_format, OF h] h
  show ?thesis by simp
qed

text \<open>
  The claim as stated fails for the price Infinity, a number above 0 that the generic
  update can store: with discount 100 the hook computes Infinity - Infinity, which is NaN
  and not 0.
\<close>

theorem recomputeFinalPrice_infinite_price:
  "fgt PosInf (Finite 0)
   \<and> finalPrice (pre_save (shirt\<lparr>price := PosInf, discount := Finite 100\<rparr>)) = NaN"
  by (simp add: pre_save_def shirt_def float_eval)

text \<open>
  The mean that \<open>updateAverageRating\<close> assigns is 0 for no ratings and otherwise the sum
  over the count; the mean of no scores is 0 and the mean of 3 and 5 is 4; and whenever
  \<open>addProductRating\<close> answers 200, the product it stored carries the mean of the ratings
  stored with it.
\<close>

lemma mean_of_scores_examples:
  "mean_of_scores [] = Finite 0 \<and> mean_of_scores [Finite 3, Finite 5] = Finite 4"
  by (simp add: mean_of_scores_def float_eval)

lemma mean_of_scores_samples:
  "mean_of_scores [Finite 5] = Finite 5"
  "mean_of_scores [Finite 5, Finite 4] = Finite (9 / 2)"
  by (simp_all add: mean_of_scores_def float_eval)

lemma assignAverageRating_eq:
  "assignAverageRating p = p\<lparr>averageRating := mean_of_scores (map rating (ratings p))\<rparr>"
  by (simp add: assignAverageRating_def mean_of_scores_def foldl_map Let_def)

lemma no_discount: "\<not> fgt (Finite 0) (Finite 0)"
  by (simp add: fgt_def)

lemma addProductRating_recomputes:
  assumes "addProductRating e errors pid userId bodyRating bodyReview d =
             (Response 200 (Data saved), d', issued)"
  shows "d' pid = Some saved
       \<and> averageRating saved = mean_of_scores (map rating (ratings saved))
       \<and> issued = [FindById pid, Save pid]"
  using assms
  by (auto simp: addProductRating_def updateAverageRating_def save_def findById_def Let_def
        averageRating_assign
      split: if_splits sum.splits option.splits)

text \<open>
  Claim C9. The generic update with a body that names \<open>ratings\<close> answers 200 and stores
  the new rating list with the old \<open>averageRating\<close>: a product rated 5 by one rater is
  stored with the average 0, where \<open>updateAverageRating\<close> would assign 5.
\<close>

theorem updateProduct_stale_averageRating:
  "updateProduct quiet ''p1''
     \<lparr>body_price = None, body_discount = None, body_finalPrice = None, body_images = None,
      body_ratings = Some [\<lparr>user = ''u1'', rating = Finite 5, review = None, date = 700\<rparr>],
      body_averageRating = None\<rparr>
     catalog =
     (Response 200
        (Data (shirt\<lparr>ratings := [\<lparr>user = ''u1'', rating = Finite 5, review = None,
                                       date = 700\<rparr>]\<rparr>)),
      catalog(''p1'' \<mapsto>
        shirt\<lparr>ratings := [\<lparr>user = ''u1'', rating = Finite 5, review = None, date = 700\<rparr>]\<rparr>),
      [FindByIdAndUpdate ''p1''])
   \<and> averageRating
        (shirt\<lparr>ratings := [\<lparr>user = ''u1'', rating = Finite 5, review = None, date = 700\<rparr>]\<rparr>)
       = Finite 0
   \<and> averageRating
        (assignAverageRating
           (shirt\<lparr>ratings := [\<lparr>user = ''u1'', rating = Finite 5, review = None,
                                  date = 700\<rparr>]\<rparr>))
       = Finite 5"
  by (simp add: updateProduct_def findByIdAndUpdate_def apply_body_def quiet_def catalog_def
      shirt_def assignAverageRating_eq mean_of_scores_samples Let_def)

section \<open>Submitting a rating\<close>

text \<open>
  Claim C6, as the code has it. For a product on which the rater has at most one rating:
  when \<open>addProductRating\<close> answers 200, the stored product has exactly one rating by that
  rater; if the rater had one, the entry at its position is replaced by the new score,
  review and the current time, all other entries staying where they are; otherwise the
  new entry, dated with the current time, is appended.
\<close>

theorem addProductRating_one_entry_per_rater:
  assumes "d pid = Some p"
    and "addProductRating e errors pid userId bodyRating bodyReview d =
           (Response 200 (Data saved), d', issued)"
    and "length (filter (\<lambda>x. user x = userId) (ratings p)) \<le> 1"
  shows "d' pid = Some saved
       \<and> length (filter (\<lambda>x. user x = userId) (ratings saved)) = 1
       \<and> ((\<exists>x \<in> set (ratings p). user x = userId) \<longrightarrow>
            (\<exists>i < length (ratings p). user (ratings p ! i) = userId
               \<and> ratings saved =
                   (ratings p)[i := \<lparr>user = userId, rating = bodyRating, review = bodyReview,
                                     date = now e\<rparr>]))
       \<and> ((\<forall>x \<in> set (ratings p). user x \<noteq> userId) \<longrightarrow>
            ratings saved =
              ratings p @ [\<lparr>user = userId, rating = bodyRating, review = bodyReview,
                            date = now e\<rparr>])"
proof -
  define entry where
    "entry = \<lparr>user = userId, rating = bodyRating, review = bodyReview, date = now e\<rparr>"
  define k where "k = findIndex (\<lambda>r. user r = userId) (ratings p)"
  define rs' where
    "rs' = (if 0 \<le> k then (ratings p)[nat k := entry] else ratings p @ [entry])"
  have stored: "d' pid = Some saved" and rs: "ratings saved = rs'"
    using assms(1,2)
    by (auto simp: addProductRating_def updateAverageRating_def save_def findById_def Let_def
          rs'_def k_def entry_def
        split: if_splits sum.splits option.splits)
  show ?thesis
  proof (cases "0 \<le> k")
    case True
    from findIndex_found [of "\<lambda>r. user r = userId" "ratings p"] True
    have k: "nat k < length (ratings p)" "user (ratings p ! nat k) = userId"
      by (simp_all add: k_def)
    have ex: "\<exists>x \<in> set (ratings p). user x = userId"
      using k by (metis nth_mem)
    have "length (filter (\<lambda>x. user x = userId) rs') =
            length (filter (\<lambda>x. user x = userId) (ratings p))"
      using True k by (simp add: rs'_def filter_update_same entry_def)
    moreover have "0 < length (filter (\<lambda>x. user x = userId) (ratings p))"
      using ex by (simp add: filter_empty_conv)
    ultimately have one: "length (filter (\<lambda>x. user x = userId) rs') = 1"
      using assms(3) by linarith
    show ?thesis
      using stored rs one ex k True
      by (auto simp: rs'_def entry_def)
  next
    case False
    then have "findIndex (\<lambda>r. user r = userId) (ratings p) < 0" by (simp add: k_def)
    then have none: "\<forall>x \<in> set (ratings p). user x \<noteq> userId"
      by (simp add: findIndex_neg_iff)
    then have "filter (\<lambda>x. user x = userId) (ratings p) = []"
      by (simp add: filter_empty_conv)
    then show ?thesis
      using stored rs none False by (simp add: rs'_def entry_def)
  qed
qed

text \<open>A rater who replaces her rating, and a rater who rates for the first time.\<close>

theorem addProductRating_one_entry_per_rater_witness:
  "(\<exists>saved d' issued.
      addProductRating quiet [] ''p1'' ''u1'' (Finite 5) (Some ''works as described'') rated_catalog =
        (Response 200 (Data saved), d', issued)
      \<and> d' ''p1'' = Some saved
      \<and> length (filter (\<lambda>x. user x = ''u1'') (ratings saved)) = 1
      \<and> ratings saved =
          [\<lparr>user = ''u1'', rating = Finite 5, review = Some ''works as described'', date = 1000\<rparr>])
   \<and> (\<exists>saved d' issued.
      addProductRating quiet [] ''p1'' ''u2'' (Finite 4) None rated_catalog =
        (Response 200 (Data saved), d', issued)
      \<and> d' ''p1'' = Some saved
      \<and> length (filter (\<lambda>x. user x = ''u2'') (ratings saved)) = 1
      \<and> ratings saved =
          [\<lparr>user = ''u1'', rating = Finite 3, review = None, date = 500\<rparr>,
           \<lparr>user = ''u2'', rating = Finite 4, review = None, date = 1000\<rparr>])"
proof -
  have a: "rated_catalog ''p1'' = Some rated" by (simp add: rated_catalog_def)
  obtain s1 d1 i1 where out1:
    "addProductRating quiet [] ''p1'' ''u1'' (Finite 5) (Some ''works as described'') rated_catalog =
       (Response 200 (Data s1), d1, i1)"
    by (simp add: addProductRating_def updateAverageRating_def save_def findById_def quiet_def
        rated_catalog_def Let_def)
  have c1: "length (filter (\<lambda>x. user x = ''u1'') (ratings rated)) \<le> 1"
    by (simp add: rated_def shirt_def)
  obtain s2 d2 i2 where out2:
    "addProductRating quiet [] ''p1'' ''u2'' (Finite 4) None rated_catalog =
       (Response 200 (Data s2), d2, i2)"
    by (simp add: addProductRating_def updateAverageRating_def save_def findById_def quiet_def
        rated_catalog_def Let_def)
  have c2: "length (filter (\<lambda>x. user x = ''u2'') (ratings rated)) \<le> 1"
    by (simp add: rated_def shirt_def)
  from addProductRating_one_entry_per_rater [OF a out1 c1]
  have r1: "d1 ''p1'' = Some s1" "length (filter (\<lambda>x. user x = ''u1'') (ratings s1)) = 1"
    "ratings s1 = [\<lparr>user = ''u1'', rating = Finite 5, review = Some ''works as described'', date = 1000\<rparr>]"
    by (simp_all add: rated_def shirt_def quiet_def)
  from addProductRating_one_entry_per_rater [OF a out2 c2]
  have r2: "d2 ''p1'' = Some s2" "length (filter (\<lambda>x. user x = ''u2'') (ratings s2)) = 1"
    "ratings s2 = [\<lparr>user = ''u1'', rating = Finite 3, review = None, date = 500\<rparr>,
           \<lparr>user = ''u2'', rating = Finite 4, review = None, date = 1000\<rparr>]"
    by (simp_all add: rated_def shirt_def quiet_def)
  from out1 r1 out2 r2 show ?thesis by blast
qed

text \<open>
  The claim as stated fails for a product that already lists the rater twice: only the
  first of the two entries is replaced, and the rater still has two.
\<close>

theorem addProductRating_keeps_duplicates:
  "addProductRating quiet [] ''p2'' ''u1'' (Finite 5) None rated_catalog =
     (Response 200
        (Data (twice_rated\<lparr>ratings := [\<lparr>user = ''u1'', rating = Finite 5, review = None, date = 1000\<rparr>,
                                       \<lparr>user = ''u1'', rating = Finite 4, review = None, date = 600\<rparr>],
                            averageRating := Finite (9 / 2)\<rparr>)),
      rated_catalog(''p2'' \<mapsto>
         twice_rated\<lparr>ratings := [\<lparr>user = ''u1'', rating = Finite 5, review = None, date = 1000\<rparr>,
                                 \<lparr>user = ''u1'', rating = Finite 4, review = None, date = 600\<rparr>],
                      averageRating := Finite (9 / 2)\<rparr>),
      [FindById ''p2'', Save ''p2''])"
  by (simp add: addProductRating_def updateAverageRating_def assignAverageRating_eq save_def
      pre_save_def findById_def quiet_def rated_catalog_def twice_rated_def shirt_def
      mean_of_scores_samples no_discount Let_def)

section \<open>The generic update\<close>

text \<open>
  Claim C7. The generic update of the price from 100 to 50 on a product without discount
  answers 200 and stores the product with price 50 and the old \<open>finalPrice\<close> 100, where the
  save hook would give 50: the stored \<open>finalPrice\<close> is out of step with its inputs.
\<close>

theorem updateProduct_stale_finalPrice:
  "updateProduct quiet ''p1''
     \<lparr>body_price = Some (Finite 50), body_discount = None, body_finalPrice = None,
      body_images = None, body_ratings = None, body_averageRating = None\<rparr>
     catalog =
     (Response 200 (Data (shirt\<lparr>price := Finite 50\<rparr>)),
      catalog(''p1'' \<mapsto> shirt\<lparr>price := Finite 50\<rparr>),
      [FindByIdAndUpdate ''p1''])
   \<and> finalPrice (shirt\<lparr>price := Finite 50\<rparr>) = Finite 100
   \<and> finalPrice (pre_save (shirt\<lparr>price := Finite 50\<rparr>)) = Finite 50"
  by (simp add: updateProduct_def findByIdAndUpdate_def apply_body_def quiet_def catalog_def
      shirt_def pre_save_def fgt_def Let_def)

end
